theory Spec2Isabelle
  imports Complex_Main
begin

section \<open>Statuses and results\<close>

text \<open>
  An \<^verbatim>\<open>absl::Status\<close> that is not OK is a code and a message. An OK status is the
  absence of one: a call returning \<^verbatim>\<open>absl::Status\<close> is a \<open>status option\<close>
  (\<open>None\<close> is OK), a call returning \<^verbatim>\<open>absl::StatusOr<T>\<close> is a \<open>status + T\<close>
  (\<open>Inl\<close> the error).
\<close>

datatype StatusCode = kCancelled | kInvalidArgument | kInternal | kOtherCode nat

datatype status = Status StatusCode string

abbreviation CancelledError :: "string \<Rightarrow> status" where
  "CancelledError m \<equiv> Status kCancelled m"

abbreviation InvalidArgumentError :: "string \<Rightarrow> status" where
  "InvalidArgumentError m \<equiv> Status kInvalidArgument m"

abbreviation InternalError :: "string \<Rightarrow> status" where
  "InternalError m \<equiv> Status kInternal m"

fun status_code :: "status \<Rightarrow> StatusCode" where
  "status_code (Status c m) = c"

fun error_code :: "status + 'a \<Rightarrow> StatusCode option" where
  "error_code (Inl e) = Some (status_code e)"
| "error_code (Inr v) = None"

section \<open>The collaborators of the pipeline\<close>

text \<open>
  \<^verbatim>\<open>pipeline.cc\<close> drives an executor, a tokenizer, a stop token detector, a sampler,
  a benchmark timer and an observer, whose classes are declared in headers that are not
  part of the sources. Each is a parameter here, with the signature its calls in
  \<^verbatim>\<open>pipeline.cc\<close> have: the tokenizer and the detector as the functions the pipeline
  calls (the detector over a state \<open>'d\<close> of its own), the stateful executor, sampler and
  timer as the results their calls give in each loop iteration.
  Scores are \<^verbatim>\<open>float\<close>s; their type \<open>'f\<close> and what the pipeline does with them
  are parameters as well: \<^verbatim>\<open>0.0f\<close>, \<^verbatim>\<open>+\<close>, the division by an \<^verbatim>\<open>int\<close>,
  minus infinity, and the score of a candidate that was never given one.
\<close>

record 'f float_ops =
  f_zero :: 'f
  f_add :: "'f \<Rightarrow> 'f \<Rightarrow> 'f"
  f_div_int :: "'f \<Rightarrow> int \<Rightarrow> 'f"
  f_neg_infinity :: 'f
  f_unset :: 'f

text \<open>
  One entry of \<^verbatim>\<open>Tokenizer::TokenIdsToTexts\<close>: the decoded text of a candidate, or
  the signal that the ids end inside a multi-byte sequence
  (\<^verbatim>\<open>Tokenizer::IsIncompleteBpeSequence\<close>). The pipeline takes the
  \<^verbatim>\<open>value()\<close> of the list and of a complete entry without a check: the list is
  always there, and an entry is one of the two.
\<close>

datatype decoded_text = IncompleteBpe | Decoded string

fun IsIncompleteBpeSequence :: "decoded_text \<Rightarrow> bool" where
  "IsIncompleteBpeSequence IncompleteBpe = True"
| "IsIncompleteBpeSequence (Decoded s) = False"

fun decoded_value :: "decoded_text \<Rightarrow> string" where
  "decoded_value (Decoded s) = s"
| "decoded_value IncompleteBpe = []"

record Tokenizer =
  TensorBufferToTokenIds :: "int list \<Rightarrow> status + int list list"
  MergeTokenIds :: "int list list \<Rightarrow> int list list \<Rightarrow> status + int list list"
  TokenIdsToTexts :: "nat \<Rightarrow> int list list \<Rightarrow> decoded_text list"

record 'd StopTokenDetector =
  ProcessTokens :: "'d \<Rightarrow> int list \<Rightarrow> status + 'd"
  GetStopTokensFound :: "'d \<Rightarrow> bool list"
  MaxPartialStopTokenLength :: "'d \<Rightarrow> nat \<Rightarrow> int"
  AllDone :: "'d \<Rightarrow> status + bool"

record BenchmarkInfo =
  num_decode_tokens :: int
  TimeDecodeTurnStart :: "status option"
  TimeDecodeTurnEnd :: "int \<Rightarrow> status option"

text \<open>
  What the stateful collaborators answer during one iteration of the decode loop:
  the value of the cancel flag loaded at the top of the iteration, the result of the
  \<open>k\<close>-th \<^verbatim>\<open>TimeMarkDelta\<close> call of a name, of the executor's and the sampler's
  calls (with the token ids and scores they write), of locking the two tensor buffers,
  and the executor's step counter once its decode call has run.
\<close>

record 'f step_io =
  cancelled_load :: bool
  TimeMarkDelta :: "string \<Rightarrow> nat \<Rightarrow> status option"
  executor_Decode :: "status + int list"
  Duplicate :: "status option"
  executor_DecodeLogits :: "status option"
  SampleToIdAndScoreBuffer :: "status + (int list \<times> 'f list)"
  ReferTensorBufferAsSpan_int :: "status option"
  ReferTensorBufferAsSpan_float :: "status option"
  step_after_decode :: int

record ('d, 'f) pipeline_env =
  tokenizer :: Tokenizer
  detector :: "'d StopTokenDetector"
  floats :: "'f float_ops"
  GetExecutorSettings :: "status + int"
  benchmark_info :: "BenchmarkInfo option"

text \<open>
  The arguments of \<^verbatim>\<open>DecodeLoop\<close> besides the collaborators: the number of
  candidates (an \<^verbatim>\<open>int\<close> that sizes vectors, so a natural number), and whether a
  sampler, a decoded-ids buffer, an observer and a cancel flag are given
  (\<^verbatim>\<open>has_value()\<close>, \<^verbatim>\<open>cancelled != nullptr\<close>).
\<close>

record decode_args =
  num_output_candidates :: nat
  sampler :: bool
  decoded_ids :: bool
  observer :: bool
  cancelled :: bool

section \<open>Responses and what the caller can observe\<close>

text \<open>
  Modelled from the spec: the class \<^verbatim>\<open>Responses\<close> (its header is not among the
  translated files) maps each candidate index to a text and a score;
  \<^verbatim>\<open>Responses(n)\<close> holds \<open>n\<close> empty texts. The score of a candidate that was never
  assigned is the parameter \<open>unset\<close> (\<open>f_unset\<close> of the float operations).
\<close>

record 'f Responses =
  response_texts :: "string list"
  response_scores :: "'f list"

definition Responses_of_size :: "'f \<Rightarrow> nat \<Rightarrow> 'f Responses" where
  "Responses_of_size unset n =
     \<lparr>response_texts = replicate n [], response_scores = replicate n unset\<rparr>"

datatype 'f observer_event =
  is_OnNext: OnNext "'f Responses"
| is_OnError: OnError status
| is_OnDone: OnDone

datatype executor_call =
  CallGetExecutorSettings | CallDecode | CallDecodeLogits | CallGetCurrentStep

text \<open>
  The objects that outlive a call: the caller's stop token detector, the events the
  observer has received, the calls the executor has received and its step counter,
  which \<^verbatim>\<open>GetCurrentStep().value()\<close> reads.
\<close>

record ('d, 'f) world =
  stop_token_detector :: 'd
  observer_log :: "'f observer_event list"
  executor_log :: "executor_call list"
  executor_step :: int

section \<open>ShouldStop\<close>

definition ShouldStop :: "bool \<Rightarrow> int \<Rightarrow> int \<Rightarrow> int \<Rightarrow> int \<Rightarrow> bool" where
  "ShouldStop hit_stop_tokens benchmark_decode_token_count num_decoded_steps
       current_step max_num_tokens =
     (if hit_stop_tokens \<and> benchmark_decode_token_count = 0 then True
      else if benchmark_decode_token_count > 0
              \<and> num_decoded_steps \<ge> benchmark_decode_token_count then True
      else if current_step \<ge> max_num_tokens then True
      else False)"

definition kDefaultMaxNumTokens :: int where
  "kDefaultMaxNumTokens = 4096"

definition TryGetMaxNumTokens :: "('d, 'f) pipeline_env \<Rightarrow> int" where
  "TryGetMaxNumTokens env =
     (case GetExecutorSettings env of
        Inl e \<Rightarrow> kDefaultMaxNumTokens
      | Inr max_tokens \<Rightarrow> max_tokens)"

section \<open>DecodeOneStep\<close>

text \<open>
  The members of \<^verbatim>\<open>DecodeOneStep\<close> that change between steps; member
  \<^verbatim>\<open>result_text_\<close> is the field \<open>m_result_text\<close>, and so on. The detector is a
  member by value: the constructor copies the caller's. A queue is a list whose head is
  the front. \<open>m_scores_span\<close> is the view of the scores tensor the sampler writes.
\<close>

record ('d, 'f) DecodeOneStep =
  m_stop_token_detector :: 'd
  m_scores_span :: "'f list"
  m_bpe_partial_token_ids :: "int list list"
  m_pending_stop_tokens :: "string list list"
  m_result_text :: "string list"

definition DecodeOneStep_init :: "nat \<Rightarrow> 'd \<Rightarrow> ('d, 'f) DecodeOneStep" where
  "DecodeOneStep_init n det =
     \<lparr>m_stop_token_detector = det,
      m_scores_span = [],
      m_bpe_partial_token_ids = replicate n [],
      m_pending_stop_tokens = replicate n [],
      m_result_text = replicate n []\<rparr>"

definition bench_mark :: "('d, 'f) pipeline_env \<Rightarrow> 'f step_io \<Rightarrow> string \<Rightarrow> nat \<Rightarrow> status option" where
  "bench_mark env io name k =
     (case benchmark_info env of
        None \<Rightarrow> None
      | Some b \<Rightarrow> TimeMarkDelta io name k)"

text \<open>
  \<^verbatim>\<open>DecodeAndSample\<close>: the executor calls made, and the error or the token ids of
  the next-tokens buffer with the scores the sampler wrote (the old scores on the
  internal path).
\<close>

definition DecodeAndSample ::
  "('d, 'f) pipeline_env \<Rightarrow> decode_args \<Rightarrow> 'f step_io \<Rightarrow> 'f list
     \<Rightarrow> executor_call list \<times> (status + (int list \<times> 'f list))" where
  "DecodeAndSample env args io old_scores =
     (if sampler args then
        (if \<not> decoded_ids args then
           ([], Inl (InternalError ''decoded_ids must be provided for external sampling.''))
         else case Duplicate io of
           Some e \<Rightarrow> ([], Inl e)
         | None \<Rightarrow>
        (case bench_mark env io ''executor_decode'' 0 of
           Some e \<Rightarrow> ([], Inl e)
         | None \<Rightarrow>
        (case executor_DecodeLogits io of
           Some e \<Rightarrow> ([CallDecodeLogits], Inl e)
         | None \<Rightarrow>
        (case bench_mark env io ''executor_decode'' 1 of
           Some e \<Rightarrow> ([CallDecodeLogits], Inl e)
         | None \<Rightarrow>
        (case bench_mark env io ''sampling'' 0 of
           Some e \<Rightarrow> ([CallDecodeLogits], Inl e)
         | None \<Rightarrow>
        (case SampleToIdAndScoreBuffer io of
           Inl e \<Rightarrow> ([CallDecodeLogits], Inl e)
         | Inr sampled \<Rightarrow>
        (case bench_mark env io ''sampling'' 1 of
           Some e \<Rightarrow> ([CallDecodeLogits], Inl e)
         | None \<Rightarrow> ([CallDecodeLogits], Inr sampled))))))))
      else
        (case bench_mark env io ''executor_decode_and_sample'' 0 of
           Some e \<Rightarrow> ([], Inl e)
         | None \<Rightarrow>
        (case executor_Decode io of
           Inl e \<Rightarrow> ([CallDecode], Inl e)
         | Inr output_tokens \<Rightarrow>
        (case bench_mark env io ''executor_decode_and_sample'' 1 of
           Some e \<Rightarrow> ([CallDecode], Inl e)
         | None \<Rightarrow> ([CallDecode], Inr (output_tokens, old_scores))))))"

text \<open>
  The comparison \<^verbatim>\<open>pending_stop_tokens_[i].size() > max_length\<close> is between a
  \<^verbatim>\<open>size_t\<close> and an \<^verbatim>\<open>int\<close>: the \<^verbatim>\<open>int\<close> is converted to \<^verbatim>\<open>size_t\<close>
  (64 bits), so a negative length becomes a huge bound.
\<close>

definition size_t_of_int :: "int \<Rightarrow> nat" where
  "size_t_of_int x = nat (x mod 2 ^ 64)"

text \<open>
  The loop \<^verbatim>\<open>while (queue.size() > max_length) { result += queue.front(); queue.pop(); }\<close>
  on the result text built so far and the queue.
\<close>

fun shift_pending :: "nat \<Rightarrow> string \<Rightarrow> string list \<Rightarrow> string \<times> string list" where
  "shift_pending bound res [] = (res, [])"
| "shift_pending bound res (front # q) =
     (if length (front # q) > bound then shift_pending bound (res @ front) q
      else (res, front # q))"

text \<open>
  The body of the loop over the candidates in \<^verbatim>\<open>Run\<close>, for candidate \<open>i\<close>: it
  writes entry \<open>i\<close> of the result texts, the partial BPE ids and the pending queues.
\<close>

definition Run_candidate ::
  "'d StopTokenDetector \<Rightarrow> 'd \<Rightarrow> decoded_text list \<Rightarrow> int list list
     \<Rightarrow> ('d, 'f) DecodeOneStep \<Rightarrow> nat \<Rightarrow> ('d, 'f) DecodeOneStep" where
  "Run_candidate ops det decoded_result token_ids st i =
     (let st0 = st\<lparr>m_result_text := (m_result_text st)[i := []]\<rparr> in
      if IsIncompleteBpeSequence (decoded_result ! i) then
        st0\<lparr>m_bpe_partial_token_ids := (m_bpe_partial_token_ids st0)[i := token_ids ! i]\<rparr>
      else if \<not> (GetStopTokensFound ops det ! i) then
        (let max_length = MaxPartialStopTokenLength ops det i;
             pushed = (if max_length > 0
                       then m_pending_stop_tokens st0 ! i @ [decoded_value (decoded_result ! i)]
                       else m_pending_stop_tokens st0 ! i);
             shifted = shift_pending (size_t_of_int max_length) [] pushed;
             res = (if max_length = 0
                    then fst shifted @ decoded_value (decoded_result ! i)
                    else fst shifted)
         in st0\<lparr>m_bpe_partial_token_ids := (m_bpe_partial_token_ids st0)[i := []],
                m_pending_stop_tokens := (m_pending_stop_tokens st0)[i := snd shifted],
                m_result_text := (m_result_text st0)[i := res]\<rparr>)
      else st0)"

text \<open>
  \<^verbatim>\<open>DecodeOneStep::Run\<close>: the executor calls made, and the error or the detector's
  \<^verbatim>\<open>AllDone\<close> with the members after the step.
\<close>

definition Run ::
  "('d, 'f) pipeline_env \<Rightarrow> decode_args \<Rightarrow> 'f step_io \<Rightarrow> ('d, 'f) DecodeOneStep
     \<Rightarrow> executor_call list \<times> (status + (bool \<times> ('d, 'f) DecodeOneStep))" where
  "Run env args io st =
     (case DecodeAndSample env args io (m_scores_span st) of
        (calls, Inl e) \<Rightarrow> (calls, Inl e)
      | (calls, Inr (next_tokens, scores_tensor)) \<Rightarrow>
          (calls,
           case TensorBufferToTokenIds (tokenizer env) next_tokens of
             Inl e \<Rightarrow> Inl e
           | Inr new_ids \<Rightarrow>
          (case MergeTokenIds (tokenizer env) (m_bpe_partial_token_ids st) new_ids of
             Inl e \<Rightarrow> Inl e
           | Inr token_ids \<Rightarrow>
          (case ReferTensorBufferAsSpan_int io of
             Some e \<Rightarrow> Inl e
           | None \<Rightarrow>
          (case ProcessTokens (detector env) (m_stop_token_detector st) next_tokens of
             Inl e \<Rightarrow> Inl e
           | Inr det \<Rightarrow>
          (let decoded_result =
                 TokenIdsToTexts (tokenizer env) (num_output_candidates args) token_ids;
               st1 = foldl (Run_candidate (detector env) det decoded_result token_ids)
                       (st\<lparr>m_stop_token_detector := det\<rparr>)
                       [0 ..< num_output_candidates args]
           in case (if sampler args then ReferTensorBufferAsSpan_float io else None) of
                Some e \<Rightarrow> Inl e
              | None \<Rightarrow>
             (case AllDone (detector env) det of
                Inl e \<Rightarrow> Inl e
              | Inr all_done \<Rightarrow>
                  Inr (all_done,
                       st1\<lparr>m_scores_span :=
                              (if sampler args then scores_tensor
                               else m_scores_span st1)\<rparr>))))))))"

section \<open>DecodeLoop\<close>

text \<open>
  \<^verbatim>\<open>absl::StrReplaceAll(output_text, {{"\342\226\201", " "}})\<close>: every occurrence of
  the three bytes of U+2581 becomes a space.
\<close>

fun StrReplaceAll_metaspace :: "string \<Rightarrow> string" where
  "StrReplaceAll_metaspace (a # b # c # rest) =
     (if a = CHR 0xE2 \<and> b = CHR 0x96 \<and> c = CHR 0x81
      then CHR '' '' # StrReplaceAll_metaspace rest
      else a # StrReplaceAll_metaspace (b # c # rest))"
| "StrReplaceAll_metaspace s = s"

text \<open>
  The local variables of \<^verbatim>\<open>DecodeLoop\<close> (the two declared in the loop body are
  reset at each iteration) and the objects it reaches through its arguments. The
  counters are \<^verbatim>\<open>int\<close>s that only count up from 0; they are unbounded here.
\<close>

record ('d, 'f) loop_state =
  world_of :: "('d, 'f) world"
  benchmark_decode_token_count :: int
  final_responses :: "'f Responses"
  accumulated_scores :: "'f list"
  num_decoded_tokens :: "int list"
  num_decode_steps :: int
  max_num_tokens :: int
  run_one_step :: "('d, 'f) DecodeOneStep"
  step_responses :: "'f Responses"
  any_updates :: bool

text \<open>The body of the loop over the candidates \<open>j\<close> in the decode loop.\<close>

definition collect_candidate ::
  "('d, 'f) pipeline_env \<Rightarrow> decode_args \<Rightarrow> ('d, 'f) loop_state \<Rightarrow> nat
     \<Rightarrow> ('d, 'f) loop_state" where
  "collect_candidate env args s j =
     (let output_text = m_result_text (run_one_step s) ! j in
      if output_text = [] then s
      else
        (let result_text = StrReplaceAll_metaspace output_text;
             s1 = s\<lparr>any_updates := True\<rparr>
         in if observer args then
              s1\<lparr>step_responses :=
                    (step_responses s1)
                      \<lparr>response_texts := (response_texts (step_responses s1))[j := result_text],
                       response_scores :=
                         (if sampler args
                          then (response_scores (step_responses s1))
                                 [j := m_scores_span (run_one_step s) ! j]
                          else response_scores (step_responses s1))\<rparr>\<rparr>
            else
              s1\<lparr>final_responses :=
                    (final_responses s1)
                      \<lparr>response_texts :=
                         (response_texts (final_responses s1))
                           [j := response_texts (final_responses s1) ! j @ result_text]\<rparr>,
                  accumulated_scores :=
                    (if sampler args
                     then (accumulated_scores s1)
                            [j := f_add (floats env) (accumulated_scores s1 ! j)
                                    (m_scores_span (run_one_step s) ! j)]
                     else accumulated_scores s1),
                  num_decoded_tokens :=
                    (if sampler args
                     then (num_decoded_tokens s1)[j := num_decoded_tokens s1 ! j + 1]
                     else num_decoded_tokens s1)\<rparr>))"

definition on_error_if_streaming ::
  "decode_args \<Rightarrow> status \<Rightarrow> ('d, 'f) world \<Rightarrow> ('d, 'f) world" where
  "on_error_if_streaming args e w =
     (if observer args then w\<lparr>observer_log := observer_log w @ [OnError e]\<rparr> else w)"

text \<open>The executor after the calls of one step: they are logged, and a decode call
  moves its step counter.\<close>

definition executor_called ::
  "executor_call list \<Rightarrow> int \<Rightarrow> ('d, 'f) world \<Rightarrow> ('d, 'f) world" where
  "executor_called calls new_step w =
     w\<lparr>executor_log := executor_log w @ calls,
       executor_step := (if calls = [] then executor_step w else new_step)\<rparr>"

text \<open>
  One pass through the body of \<^verbatim>\<open>while (true)\<close>: the loop goes on, is left by
  \<^verbatim>\<open>break\<close>, or the function returns an error from inside it.
\<close>

datatype ('d, 'f) iteration =
  is_Continue: Continue (state_after: "('d, 'f) loop_state")
| is_Break: Break (state_after: "('d, 'f) loop_state")
| is_Return: Return (world_at_return: "('d, 'f) world") (status_returned: status)

text \<open>The caller's objects after an iteration, however it ended.\<close>

fun world_after :: "('d, 'f) iteration \<Rightarrow> ('d, 'f) world" where
  "world_after (Continue s) = world_of s"
| "world_after (Break s) = world_of s"
| "world_after (Return w e) = w"

definition DecodeLoop_iteration ::
  "('d, 'f) pipeline_env \<Rightarrow> decode_args \<Rightarrow> 'f step_io \<Rightarrow> ('d, 'f) loop_state
     \<Rightarrow> ('d, 'f) iteration" where
  "DecodeLoop_iteration env args io s =
     (if cancelled args \<and> cancelled_load io then
        Return (on_error_if_streaming args (CancelledError ''Process cancelled.'') (world_of s))
          (CancelledError ''Process cancelled.'')
      else
        (case Run env args io (run_one_step s) of
           (calls, Inl e) \<Rightarrow>
             Return (on_error_if_streaming args e
                       (executor_called calls (step_after_decode io) (world_of s))) e
         | (calls, Inr (all_done, stepped)) \<Rightarrow>
             (let s1 = s\<lparr>world_of := executor_called calls (step_after_decode io) (world_of s),
                         run_one_step := stepped,
                         num_decode_steps := num_decode_steps s + 1,
                         step_responses :=
                           Responses_of_size (f_unset (floats env)) (num_output_candidates args),
                         any_updates := False\<rparr>;
                  s2 = foldl (collect_candidate env args) s1 [0 ..< num_output_candidates args];
                  s3 = (if observer args \<and> any_updates s2 \<and> \<not> all_done
                        then s2\<lparr>world_of :=
                                  (world_of s2)
                                    \<lparr>observer_log :=
                                       observer_log (world_of s2) @ [OnNext (step_responses s2)]\<rparr>\<rparr>
                        else s2);
                  s4 = s3\<lparr>world_of :=
                            (world_of s3)
                              \<lparr>executor_log := executor_log (world_of s3) @ [CallGetCurrentStep]\<rparr>\<rparr>
              in if ShouldStop all_done (benchmark_decode_token_count s4) (num_decode_steps s4)
                      (executor_step (world_of s4)) (max_num_tokens s4)
                 then Break s4 else Continue s4)))"

text \<open>
  The loop over the iterations the collaborators' answers are given for. \<open>Continue\<close> is
  the loop still running when the answers end.
\<close>

fun DecodeLoop_while ::
  "('d, 'f) pipeline_env \<Rightarrow> decode_args \<Rightarrow> ('d, 'f) loop_state \<Rightarrow> 'f step_io list
     \<Rightarrow> ('d, 'f) iteration" where
  "DecodeLoop_while env args s [] = Continue s"
| "DecodeLoop_while env args s (io # ios) =
     (case DecodeLoop_iteration env args io s of
        Continue s' \<Rightarrow> DecodeLoop_while env args s' ios
      | Break s' \<Rightarrow> Break s'
      | Return w e \<Rightarrow> Return w e)"

text \<open>
  The steps the loop completes on the given answers, each as the members of
  \<^verbatim>\<open>DecodeOneStep\<close> after it: what \<^verbatim>\<open>GetResultText()\<close> and
  \<^verbatim>\<open>GetScores()\<close> return in that iteration.
\<close>

fun completed_steps ::
  "('d, 'f) pipeline_env \<Rightarrow> decode_args \<Rightarrow> ('d, 'f) loop_state \<Rightarrow> 'f step_io list
     \<Rightarrow> ('d, 'f) DecodeOneStep list" where
  "completed_steps env args s [] = []"
| "completed_steps env args s (io # ios) =
     (case DecodeLoop_iteration env args io s of
        Continue s' \<Rightarrow> run_one_step s' # completed_steps env args s' ios
      | Break s' \<Rightarrow> [run_one_step s']
      | Return w e \<Rightarrow> [])"

text \<open>
  The two turn marks of the benchmark, \<^verbatim>\<open>TimeDecodeTurnStart()\<close> before the loop and
  \<^verbatim>\<open>TimeDecodeTurnEnd(n)\<close> after it, made only \<^verbatim>\<open>if (benchmark_info.has_value())\<close>.
\<close>

definition turn_start :: "('d, 'f) pipeline_env \<Rightarrow> status option" where
  "turn_start env =
     (case benchmark_info env of None \<Rightarrow> None | Some b \<Rightarrow> TimeDecodeTurnStart b)"

definition turn_end :: "('d, 'f) pipeline_env \<Rightarrow> int \<Rightarrow> status option" where
  "turn_end env n =
     (case benchmark_info env of None \<Rightarrow> None | Some b \<Rightarrow> TimeDecodeTurnEnd b n)"

text \<open>The score loop that ends batch decoding with a sampler.\<close>

definition finalize_score :: "'f float_ops \<Rightarrow> 'f list \<Rightarrow> int list \<Rightarrow> 'f list \<Rightarrow> nat \<Rightarrow> 'f list" where
  "finalize_score fl acc num final_scores j =
     (if num ! j > 0
      then final_scores[j := f_div_int fl (acc ! j) (num ! j)]
      else final_scores[j := f_neg_infinity fl])"

text \<open>What follows the loop once it is left by \<^verbatim>\<open>break\<close>.\<close>

definition DecodeLoop_finish ::
  "('d, 'f) pipeline_env \<Rightarrow> decode_args \<Rightarrow> ('d, 'f) loop_state
     \<Rightarrow> ('d, 'f) world \<times> (status + 'f Responses)" where
  "DecodeLoop_finish env args s =
     (case turn_end env (num_decode_steps s * int (num_output_candidates args)) of
        Some e \<Rightarrow> (world_of s, Inl e)
      | None \<Rightarrow>
          if observer args then
            (let w = (world_of s)\<lparr>executor_log := executor_log (world_of s) @ [CallGetCurrentStep]\<rparr>
             in (w\<lparr>observer_log :=
                      observer_log w @
                        [if executor_step w \<ge> max_num_tokens s
                         then OnError (InternalError ''Maximum kv-cache size reached.'')
                         else OnDone]\<rparr>,
                 Inr (Responses_of_size (f_unset (floats env)) 0)))
          else if sampler args then
            (world_of s,
             Inr ((final_responses s)
                    \<lparr>response_scores :=
                       foldl (finalize_score (floats env) (accumulated_scores s)
                                (num_decoded_tokens s))
                         (response_scores (final_responses s))
                         [0 ..< num_output_candidates args]\<rparr>))
          else (world_of s, Inr (final_responses s)))"

text \<open>
  A call as far as the given answers take it: the objects afterwards, and what the
  function returned, \<open>None\<close> while it is still in its loop.
\<close>

record ('d, 'f, 'r) call_result =
  after :: "('d, 'f) world"
  returned :: "'r option"

definition DecodeLoop_start ::
  "('d, 'f) pipeline_env \<Rightarrow> decode_args \<Rightarrow> ('d, 'f) world \<Rightarrow> ('d, 'f) loop_state" where
  "DecodeLoop_start env args w =
     \<lparr>world_of = w\<lparr>executor_log := executor_log w @ [CallGetExecutorSettings]\<rparr>,
      benchmark_decode_token_count =
        (case benchmark_info env of None \<Rightarrow> 0 | Some b \<Rightarrow> num_decode_tokens b),
      final_responses = Responses_of_size (f_unset (floats env)) (num_output_candidates args),
      accumulated_scores = replicate (num_output_candidates args) (f_zero (floats env)),
      num_decoded_tokens = replicate (num_output_candidates args) 0,
      num_decode_steps = 0,
      max_num_tokens = TryGetMaxNumTokens env,
      run_one_step = DecodeOneStep_init (num_output_candidates args) (stop_token_detector w),
      step_responses = Responses_of_size (f_unset (floats env)) (num_output_candidates args),
      any_updates = False\<rparr>"

definition DecodeLoop ::
  "('d, 'f) pipeline_env \<Rightarrow> decode_args \<Rightarrow> ('d, 'f) world \<Rightarrow> 'f step_io list
     \<Rightarrow> ('d, 'f, status + 'f Responses) call_result" where
  "DecodeLoop env args w ios =
     (case turn_start env of
        Some e \<Rightarrow> \<lparr>after = w, returned = Some (Inl e)\<rparr>
      | None \<Rightarrow>
          (case DecodeLoop_while env args (DecodeLoop_start env args w) ios of
             Continue s \<Rightarrow> \<lparr>after = world_of s, returned = None\<rparr>
           | Return w' e \<Rightarrow> \<lparr>after = w', returned = Some (Inl e)\<rparr>
           | Break s \<Rightarrow>
               \<lparr>after = fst (DecodeLoop_finish env args s),
                returned = Some (snd (DecodeLoop_finish env args s))\<rparr>))"

section \<open>The public entry points\<close>

text \<open>\<^verbatim>\<open>.status()\<close> of a \<^verbatim>\<open>StatusOr\<close>.\<close>

fun status_of :: "status + 'a \<Rightarrow> status option" where
  "status_of (Inl e) = Some e"
| "status_of (Inr v) = None"

definition Decode ::
  "('d, 'f) pipeline_env \<Rightarrow> bool \<Rightarrow> ('d, 'f) world \<Rightarrow> 'f step_io list
     \<Rightarrow> ('d, 'f, status + 'f Responses) call_result" where
  "Decode env cancelled_given w ios =
     DecodeLoop env
       \<lparr>num_output_candidates = 1, sampler = False, decoded_ids = False,
        observer = False, cancelled = cancelled_given\<rparr> w ios"

definition DecodeStreaming ::
  "('d, 'f) pipeline_env \<Rightarrow> bool \<Rightarrow> bool \<Rightarrow> ('d, 'f) world \<Rightarrow> 'f step_io list
     \<Rightarrow> ('d, 'f, status option) call_result" where
  "DecodeStreaming env observer_given cancelled_given w ios =
     (if \<not> observer_given then
        \<lparr>after = w,
         returned = Some (Some (InvalidArgumentError ''Observer must not be null for streaming.''))\<rparr>
      else
        (let r = DecodeLoop env
                   \<lparr>num_output_candidates = 1, sampler = False, decoded_ids = False,
                    observer = True, cancelled = cancelled_given\<rparr> w ios
         in \<lparr>after = after r, returned = map_option status_of (returned r)\<rparr>))"

definition DecodeCustomSampling ::
  "('d, 'f) pipeline_env \<Rightarrow> nat \<Rightarrow> bool \<Rightarrow> ('d, 'f) world \<Rightarrow> 'f step_io list
     \<Rightarrow> ('d, 'f, status + 'f Responses) call_result" where
  "DecodeCustomSampling env n cancelled_given w ios =
     DecodeLoop env
       \<lparr>num_output_candidates = n, sampler = True, decoded_ids = True,
        observer = False, cancelled = cancelled_given\<rparr> w ios"

definition DecodeCustomSamplingStreaming ::
  "('d, 'f) pipeline_env \<Rightarrow> nat \<Rightarrow> bool \<Rightarrow> bool \<Rightarrow> ('d, 'f) world \<Rightarrow> 'f step_io list
     \<Rightarrow> ('d, 'f, status option) call_result" where
  "DecodeCustomSamplingStreaming env n observer_given cancelled_given w ios =
     (if \<not> observer_given then
        \<lparr>after = w,
         returned = Some (Some (InvalidArgumentError ''Observer must not be null for streaming.''))\<rparr>
      else
        (let r = DecodeLoop env
                   \<lparr>num_output_candidates = n, sampler = True, decoded_ids = True,
                    observer = True, cancelled = cancelled_given\<rparr> w ios
         in \<lparr>after = after r, returned = map_option status_of (returned r)\<rparr>))"

section \<open>Prefill\<close>

text \<open>
  The token-id tensor of the prompt: its dimensions, of which
  \<^verbatim>\<open>Dimensions().back()\<close> is the last, so that there is one, and the elements of
  its buffer.
\<close>

record TokenIds =
  leading_dimensions :: "int list"
  last_dimension :: int
  elements :: "int list"

text \<open>
  What the collaborators answer during \<^verbatim>\<open>Prefill\<close>: the text data of the inputs
  (an error, a null pointer or the tensor), reading the tensor's type, locking its
  buffer, the executor's prefill and the benchmark's turn mark; and the status that
  the macro \<^verbatim>\<open>RET_CHECK\<close>, defined outside the translated file, returns when its
  condition fails.
\<close>

record prefill_io =
  GetTextDataPtr :: "status + TokenIds option"
  RET_CHECK_failure :: status
  TensorType :: "status option"
  ReferTensorBufferAsSpan_ids :: "status option"
  executor_Prefill :: "status option"
  TimePrefillTurnEnd :: "nat \<Rightarrow> status option"

text \<open>\<^verbatim>\<open>absl::StrCat\<close> of an integer: its decimal digits, after a minus sign if it
  is negative.\<close>

definition digit_char :: "nat \<Rightarrow> char" where
  "digit_char d = ''0123456789'' ! d"

fun string_of_nat :: "nat \<Rightarrow> string" where
  "string_of_nat n =
     (if n < 10 then [digit_char n]
      else string_of_nat (n div 10) @ [digit_char (n mod 10)])"

declare string_of_nat.simps [simp del]

definition StrCat_int :: "int \<Rightarrow> string" where
  "StrCat_int x =
     (if x < 0 then CHR ''-'' # string_of_nat (nat (- x)) else string_of_nat (nat x))"

definition Prefill ::
  "('d, 'f) pipeline_env \<Rightarrow> prefill_io \<Rightarrow> bool \<Rightarrow> status + int" where
  "Prefill env pio wait_for_completion =
     (let max_tokens = TryGetMaxNumTokens env in
      case GetTextDataPtr pio of
        Inl e \<Rightarrow> Inl e
      | Inr None \<Rightarrow> Inl (RET_CHECK_failure pio)
      | Inr (Some token_ids) \<Rightarrow>
     (case TensorType pio of
        Some e \<Rightarrow> Inl e
      | None \<Rightarrow>
     (let num_tokens = last_dimension token_ids in
      if num_tokens \<ge> max_tokens then
        Inl (InvalidArgumentError
               (''Input token ids are too long. Exceeding the maximum number of tokens ''
                @ ''allowed: '' @ StrCat_int num_tokens @ '' >= '' @ StrCat_int max_tokens))
      else
     (case ReferTensorBufferAsSpan_ids pio of
        Some e \<Rightarrow> Inl e
      | None \<Rightarrow>
      if elements token_ids = [] then Inl (InternalError ''Input token ids are empty.'')
      else
     (let last_token_id = last (elements token_ids) in
      case executor_Prefill pio of
        Some e \<Rightarrow> Inl e
      | None \<Rightarrow>
     (case (case benchmark_info env of
              None \<Rightarrow> None
            | Some b \<Rightarrow> TimePrefillTurnEnd pio (length (elements token_ids))) of
        Some e \<Rightarrow> Inl e
      | None \<Rightarrow> Inr last_token_id))))))"

section \<open>A concrete instance\<close>

text \<open>
  Collaborators to run the pipeline on: scores that are rationals or minus infinity; a
  tokenizer that gives each id a list of its own, merges by concatenation and decodes
  7, 8 and 9 to \<open>Hi\<close>, \<open> there\<close> and \<open>.\<close>, an id list ending in 100 being incomplete; an
  executor that reports a maximum of 10 tokens; no benchmark.

  Modelled from the spec: the class \<^verbatim>\<open>StopTokenDetector\<close> is not part of the
  sources; \<open>demo_detector\<close> is the detector of the spec's section 4.1 for the stop
  sequences \<open>[2]\<close> and \<open>[8, 9]\<close>. Its state is, per candidate, 0 (no match), 1 (\<open>8\<close>
  matched, a partial stop of length 1) or 2 (stopped, frozen); a token that does not
  extend the match falls back to 0, or to 1 if it is \<open>8\<close> itself.
\<close>

datatype demo_float = Score rat | MinusInfinity

fun demo_add :: "demo_float \<Rightarrow> demo_float \<Rightarrow> demo_float" where
  "demo_add (Score a) (Score b) = Score (a + b)"
| "demo_add a b = MinusInfinity"

fun demo_div :: "demo_float \<Rightarrow> int \<Rightarrow> demo_float" where
  "demo_div (Score a) n = Score (a / of_int n)"
| "demo_div MinusInfinity n = MinusInfinity"

definition demo_floats :: "demo_float float_ops" where
  "demo_floats =
     \<lparr>f_zero = Score 0, f_add = demo_add, f_div_int = demo_div,
      f_neg_infinity = MinusInfinity, f_unset = MinusInfinity\<rparr>"

definition demo_piece :: "int \<Rightarrow> string" where
  "demo_piece t = (if t = 7 then ''Hi'' else if t = 8 then '' there''
                   else if t = 9 then ''.'' else [])"

definition demo_decode :: "int list \<Rightarrow> decoded_text" where
  "demo_decode ids =
     (if ids \<noteq> [] \<and> last ids = 100 then IncompleteBpe
      else Decoded (concat (map demo_piece ids)))"

definition demo_tokenizer :: Tokenizer where
  "demo_tokenizer =
     \<lparr>TensorBufferToTokenIds = (\<lambda>buf. Inr (map (\<lambda>t. [t]) buf)),
      MergeTokenIds = (\<lambda>pending new_ids. Inr (map2 (@) pending new_ids)),
      TokenIdsToTexts = (\<lambda>n ids. map demo_decode (take n ids))\<rparr>"

definition demo_advance :: "nat \<Rightarrow> int \<Rightarrow> nat" where
  "demo_advance m t =
     (if m = 2 then 2 else if t = 2 then 2 else if m = 1 \<and> t = 9 then 2
      else if t = 8 then 1 else 0)"

definition demo_detector :: "nat list StopTokenDetector" where
  "demo_detector =
     \<lparr>ProcessTokens = (\<lambda>d toks. Inr (map2 demo_advance d toks)),
      GetStopTokensFound = (\<lambda>d. map (\<lambda>m. m = 2) d),
      MaxPartialStopTokenLength = (\<lambda>d i. if d ! i = 1 then 1 else 0),
      AllDone = (\<lambda>d. Inr (list_all (\<lambda>m. m = 2) d))\<rparr>"

definition demo_env :: "(nat list, demo_float) pipeline_env" where
  "demo_env =
     \<lparr>tokenizer = demo_tokenizer, detector = demo_detector, floats = demo_floats,
      GetExecutorSettings = Inr 10, benchmark_info = None\<rparr>"

text \<open>The same with a benchmark of \<open>k\<close> decode tokens whose turn marks give \<open>start\<close>
  and \<open>finish\<close>.\<close>

definition demo_benchmark_env ::
  "int \<Rightarrow> status option \<Rightarrow> status option \<Rightarrow> (nat list, demo_float) pipeline_env" where
  "demo_benchmark_env k start finish =
     demo_env\<lparr>benchmark_info :=
       Some \<lparr>num_decode_tokens = k, TimeDecodeTurnStart = start,
             TimeDecodeTurnEnd = (\<lambda>n. finish)\<rparr>\<rparr>"

text \<open>The caller's objects before a call: a fresh detector for \<open>n\<close> candidates, an
  observer and an executor that have received nothing, 3 prompt tokens in the cache.\<close>

definition demo_world :: "nat \<Rightarrow> (nat list, demo_float) world" where
  "demo_world n =
     \<lparr>stop_token_detector = replicate n 0, observer_log = [], executor_log = [],
      executor_step = 3\<rparr>"

text \<open>An iteration in which every call succeeds: the cancel flag as given, the next
  token ids and scores, and the executor's step afterwards.\<close>

definition demo_io :: "bool \<Rightarrow> int list \<Rightarrow> demo_float list \<Rightarrow> int \<Rightarrow> demo_float step_io" where
  "demo_io flag toks scs step =
     \<lparr>cancelled_load = flag,
      TimeMarkDelta = (\<lambda>name k. None),
      executor_Decode = Inr toks,
      Duplicate = None,
      executor_DecodeLogits = None,
      SampleToIdAndScoreBuffer = Inr (toks, scs),
      ReferTensorBufferAsSpan_int = None,
      ReferTensorBufferAsSpan_float = None,
      step_after_decode = step\<rparr>"

definition demo_args :: "nat \<Rightarrow> bool \<Rightarrow> bool \<Rightarrow> decode_args" where
  "demo_args n with_sampler streaming =
     \<lparr>num_output_candidates = n, sampler = with_sampler, decoded_ids = with_sampler,
      observer = streaming, cancelled = True\<rparr>"

text \<open>A prompt tensor of shape \<open>[1, n]\<close>, and a prefill in which every collaborator
  succeeds on the given tensor.\<close>

definition demo_prompt :: "int list \<Rightarrow> TokenIds" where
  "demo_prompt ids =
     \<lparr>leading_dimensions = [1], last_dimension = int (length ids), elements = ids\<rparr>"

definition demo_prefill_io :: "TokenIds \<Rightarrow> prefill_io" where
  "demo_prefill_io token_ids =
     \<lparr>GetTextDataPtr = Inr (Some token_ids),
      RET_CHECK_failure = InternalError ''text_data must not be null.'',
      TensorType = None,
      ReferTensorBufferAsSpan_ids = None,
      executor_Prefill = None,
      TimePrefillTurnEnd = (\<lambda>n. None)\<rparr>"

section \<open>Evaluation and frame lemmas\<close>

lemmas demo_defs =
  demo_env_def demo_args_def demo_world_def demo_io_def demo_tokenizer_def
  demo_detector_def demo_floats_def demo_decode_def demo_piece_def demo_advance_def

lemmas loop_defs =
  DecodeLoop_def DecodeLoop_start_def DecodeLoop_iteration_def Run_def DecodeAndSample_def
  bench_mark_def DecodeOneStep_init_def Run_candidate_def Let_def collect_candidate_def
  Responses_of_size_def executor_called_def ShouldStop_def TryGetMaxNumTokens_def
  size_t_of_int_def DecodeLoop_finish_def on_error_if_streaming_def finalize_score_def
  turn_start_def turn_end_def

lemma ShouldStop_iff:
  "ShouldStop hit k s cur mx \<longleftrightarrow> (hit \<and> k = 0) \<or> (k > 0 \<and> s \<ge> k) \<or> cur \<ge> mx"
  by (simp add: ShouldStop_def)

lemma collect_candidate_frame:
  "world_of (collect_candidate env args s j) = world_of s"
  "benchmark_decode_token_count (collect_candidate env args s j)
     = benchmark_decode_token_count s"
  "num_decode_steps (collect_candidate env args s j) = num_decode_steps s"
  "max_num_tokens (collect_candidate env args s j) = max_num_tokens s"
  "run_one_step (collect_candidate env args s j) = run_one_step s"
  by (simp_all add: collect_candidate_def Let_def)

lemma foldl_collect_frame:
  "world_of (foldl (collect_candidate env args) s js) = world_of s"
  "benchmark_decode_token_count (foldl (collect_candidate env args) s js)
     = benchmark_decode_token_count s"
  "num_decode_steps (foldl (collect_candidate env args) s js) = num_decode_steps s"
  "max_num_tokens (foldl (collect_candidate env args) s js) = max_num_tokens s"
  "run_one_step (foldl (collect_candidate env args) s js) = run_one_step s"
  by (induction js arbitrary: s; simp add: collect_candidate_frame)+

text \<open>A step that succeeds has made exactly one decode call on the executor.\<close>

lemma DecodeAndSample_calls:
  "DecodeAndSample env args io sc = (calls, Inr v) \<Longrightarrow>
     calls = [if sampler args then CallDecodeLogits else CallDecode]"
  by (auto simp: DecodeAndSample_def split: if_splits option.splits sum.splits)

lemma Run_calls:
  "Run env args io st = (calls, Inr v) \<Longrightarrow>
     calls = [if sampler args then CallDecodeLogits else CallDecode]"
  unfolding Run_def
  by (auto split: prod.splits sum.splits dest: DecodeAndSample_calls)

text \<open>An iteration that is not cancelled and whose step succeeds, written out.\<close>

lemma iteration_of_successful_step:
  assumes "\<not> (cancelled args \<and> cancelled_load io)"
      and "Run env args io (run_one_step s) = (calls, Inr (all_done, stepped))"
  shows "DecodeLoop_iteration env args io s =
     (let s1 = s\<lparr>world_of := executor_called calls (step_after_decode io) (world_of s),
                 run_one_step := stepped,
                 num_decode_steps := num_decode_steps s + 1,
                 step_responses :=
                   Responses_of_size (f_unset (floats env)) (num_output_candidates args),
                 any_updates := False\<rparr>;
          s2 = foldl (collect_candidate env args) s1 [0 ..< num_output_candidates args];
          s3 = (if observer args \<and> any_updates s2 \<and> \<not> all_done
                then s2\<lparr>world_of :=
                          (world_of s2)
                            \<lparr>observer_log :=
                               observer_log (world_of s2) @ [OnNext (step_responses s2)]\<rparr>\<rparr>
                else s2);
          s4 = s3\<lparr>world_of :=
                    (world_of s3)
                      \<lparr>executor_log := executor_log (world_of s3) @ [CallGetCurrentStep]\<rparr>\<rparr>
      in if ShouldStop all_done (benchmark_decode_token_count s4) (num_decode_steps s4)
              (executor_step (world_of s4)) (max_num_tokens s4)
         then Break s4 else Continue s4)"
proof -
  from assms(1) have "(cancelled args \<and> cancelled_load io) = False" by simp
  then show ?thesis
    unfolding DecodeLoop_iteration_def by (simp only: if_False assms(2) prod.case sum.case)
qed

section \<open>What the observer is sent in an iteration\<close>

lemma collect_any_updates:
  "any_updates (foldl (collect_candidate env args) s js) \<longleftrightarrow>
     any_updates s \<or> (\<exists>j\<in>set js. m_result_text (run_one_step s) ! j \<noteq> [])"
proof (induction js arbitrary: s)
  case Nil
  then show ?case by simp
next
  case (Cons j js)
  have "any_updates (collect_candidate env args s j) \<longleftrightarrow>
          any_updates s \<or> m_result_text (run_one_step s) ! j \<noteq> []"
    by (simp add: collect_candidate_def Let_def)
  with Cons show ?case
    by (auto simp: collect_candidate_frame)
qed

lemma collect_candidate_texts_length:
  "length (response_texts (step_responses (collect_candidate env args s j)))
     = length (response_texts (step_responses s))"
  by (simp add: collect_candidate_def Let_def)

lemma collect_texts_length:
  "length (response_texts (step_responses (foldl (collect_candidate env args) s js)))
     = length (response_texts (step_responses s))"
  by (induction js arbitrary: s) (simp_all add: collect_candidate_texts_length)

lemma collect_candidate_texts_nth:
  assumes "observer args" "i < length (response_texts (step_responses s))"
  shows "response_texts (step_responses (collect_candidate env args s j)) ! i =
     (if i = j \<and> m_result_text (run_one_step s) ! i \<noteq> []
      then StrReplaceAll_metaspace (m_result_text (run_one_step s) ! i)
      else response_texts (step_responses s) ! i)"
  using assms by (auto simp: collect_candidate_def Let_def nth_list_update)

lemma collect_streaming_texts:
  assumes "observer args" "i < length (response_texts (step_responses s))"
  shows "response_texts (step_responses (foldl (collect_candidate env args) s js)) ! i =
     (if i \<in> set js \<and> m_result_text (run_one_step s) ! i \<noteq> []
      then StrReplaceAll_metaspace (m_result_text (run_one_step s) ! i)
      else response_texts (step_responses s) ! i)"
  using assms
proof (induction js arbitrary: s rule: rev_induct)
  case Nil
  then show ?case by simp
next
  case (snoc j js)
  let ?t = "foldl (collect_candidate env args) s js"
  have "i < length (response_texts (step_responses ?t))"
    using snoc.prems by (simp add: collect_texts_length)
  from collect_candidate_texts_nth[OF snoc.prems(1) this, of env j]
  show ?case
    using snoc.IH[OF snoc.prems] by (simp add: foldl_collect_frame)
qed

text \<open>
  C2, as the code has it. In streaming mode, in an iteration that is not cancelled and
  whose step succeeds, the observer receives \<^verbatim>\<open>OnNext\<close> with the step's view (the
  released text of every candidate, its metaspace marks replaced) exactly when some
  candidate has non-empty result text and the step did not report all candidates done;
  otherwise the observer receives nothing in that iteration. Whether the loop is then
  left (benchmark cap, cache limit) plays no part.
\<close>

theorem on_next_iff_output_and_not_all_done:
  assumes "observer args"
      and "\<not> (cancelled args \<and> cancelled_load io)"
      and "Run env args io (run_one_step s) = (calls, Inr (all_done, stepped))"
  shows "((\<exists>view. observer_log (world_after (DecodeLoop_iteration env args io s))
                    = observer_log (world_of s) @ [OnNext view]
                 \<and> response_texts view
                    = map (\<lambda>j. StrReplaceAll_metaspace (m_result_text stepped ! j))
                        [0 ..< num_output_candidates args])
          \<longleftrightarrow> (\<exists>j < num_output_candidates args. m_result_text stepped ! j \<noteq> [])
               \<and> \<not> all_done)
       \<and> (observer_log (world_after (DecodeLoop_iteration env args io s))
             = observer_log (world_of s)
          \<longleftrightarrow> \<not> ((\<exists>j < num_output_candidates args. m_result_text stepped ! j \<noteq> [])
                  \<and> \<not> all_done))"
proof -
  let ?n = "num_output_candidates args"
  let ?s1 = "s\<lparr>world_of := executor_called calls (step_after_decode io) (world_of s),
               run_one_step := stepped,
               num_decode_steps := num_decode_steps s + 1,
               step_responses :=
                 Responses_of_size (f_unset (floats env)) (num_output_candidates args),
               any_updates := False\<rparr>"
  let ?s2 = "foldl (collect_candidate env args) ?s1 [0 ..< ?n]"
  let ?cond = "(\<exists>j < ?n. m_result_text stepped ! j \<noteq> []) \<and> \<not> all_done"
  have any: "any_updates ?s2 \<longleftrightarrow> (\<exists>j < ?n. m_result_text stepped ! j \<noteq> [])"
    by (auto simp: collect_any_updates)
  have len: "length (response_texts (step_responses ?s2)) = ?n"
    by (simp add: collect_texts_length Responses_of_size_def)
  have nth: "response_texts (step_responses ?s2) ! i
               = StrReplaceAll_metaspace (m_result_text stepped ! i)" if "i < ?n" for i
    using that collect_streaming_texts[of args i ?s1 env "[0 ..< ?n]"] assms(1)
    by (auto simp: Responses_of_size_def)
  have texts: "response_texts (step_responses ?s2)
                 = map (\<lambda>j. StrReplaceAll_metaspace (m_result_text stepped ! j)) [0 ..< ?n]"
    by (rule nth_equalityI) (simp_all add: len nth)
  have log: "observer_log (world_after (DecodeLoop_iteration env args io s))
        = observer_log (world_of s) @ (if ?cond then [OnNext (step_responses ?s2)] else [])"
    using assms(1) any
    by (simp add: iteration_of_successful_step[OF assms(2,3)] Let_def foldl_collect_frame
          executor_called_def)
  show ?thesis
    using texts by (auto simp: log)
qed

text \<open>A first streaming step that decodes token 7: the observer receives \<open>Hi\<close>.\<close>

theorem on_next_iff_output_and_not_all_done_witness:
  "observer (demo_args 1 False True)
   \<and> \<not> (cancelled (demo_args 1 False True) \<and> cancelled_load (demo_io False [7] [] 4))
   \<and> (\<exists>calls stepped.
         Run demo_env (demo_args 1 False True) (demo_io False [7] [] 4)
           (run_one_step (DecodeLoop_start demo_env (demo_args 1 False True) (demo_world 1)))
           = (calls, Inr (False, stepped))
         \<and> m_result_text stepped = [''Hi''])
   \<and> (\<exists>view.
         observer_log (world_after (DecodeLoop_iteration demo_env (demo_args 1 False True)
             (demo_io False [7] [] 4)
             (DecodeLoop_start demo_env (demo_args 1 False True) (demo_world 1))))
           = observer_log (world_of (DecodeLoop_start demo_env (demo_args 1 False True)
                                       (demo_world 1))) @ [OnNext view]
         \<and> response_texts view = [''Hi''])"
proof -
  let ?args = "demo_args 1 False True"
  let ?io = "demo_io False [7] [] 4"
  let ?s = "DecodeLoop_start demo_env ?args (demo_world 1)"
  have ob: "observer ?args" and n: "num_output_candidates ?args = 1"
    by (simp_all add: demo_defs)
  have nc: "\<not> (cancelled ?args \<and> cancelled_load ?io)"
    by (simp add: demo_defs)
  obtain calls stepped
    where run: "Run demo_env ?args ?io (run_one_step ?s) = (calls, Inr (False, stepped))"
      and res: "m_result_text stepped = [''Hi'']"
    by (simp add: demo_defs loop_defs)
  from on_next_iff_output_and_not_all_done[OF ob nc run] res n
  have "\<exists>view. observer_log (world_after (DecodeLoop_iteration demo_env ?args ?io ?s))
                  = observer_log (world_of ?s) @ [OnNext view]
              \<and> response_texts view = [''Hi'']"
    by simp
  with ob nc run res show ?thesis by blast
qed

text \<open>
  The claim as the spec words it fails: a streaming step that decodes token 7 and
  takes the executor to step 10, the maximum, ends the loop, and the observer is sent
  the step's text all the same.
\<close>

theorem on_next_at_terminating_step_counterexample:
  "is_Break (DecodeLoop_iteration demo_env (demo_args 1 False True) (demo_io False [7] [] 10)
              (DecodeLoop_start demo_env (demo_args 1 False True) (demo_world 1)))
   \<and> observer_log (world_after (DecodeLoop_iteration demo_env (demo_args 1 False True)
         (demo_io False [7] [] 10)
         (DecodeLoop_start demo_env (demo_args 1 False True) (demo_world 1))))
      = [OnNext \<lparr>response_texts = [''Hi''], response_scores = [MinusInfinity]\<rparr>]"
  by (simp add: demo_defs loop_defs)

section \<open>The loop as a whole\<close>

text \<open>Running the loop on more answers continues from where the first ones led.\<close>

lemma DecodeLoop_while_append:
  "DecodeLoop_while env args s (pre @ rest) =
     (case DecodeLoop_while env args s pre of
        Continue s' \<Rightarrow> DecodeLoop_while env args s' rest
      | Break s' \<Rightarrow> Break s'
      | Return w e \<Rightarrow> Return w e)"
  by (induction pre arbitrary: s) (simp_all split: iteration.splits)

text \<open>The three ways an iteration can end, from the two facts that decide it.\<close>

lemma iteration_cancelled:
  assumes "cancelled args" "cancelled_load io"
  shows "DecodeLoop_iteration env args io s =
           Return (on_error_if_streaming args (CancelledError ''Process cancelled.'') (world_of s))
             (CancelledError ''Process cancelled.'')"
  using assms by (simp add: DecodeLoop_iteration_def)

lemma iteration_of_failed_step:
  assumes "\<not> (cancelled args \<and> cancelled_load io)"
      and "Run env args io (run_one_step s) = (calls, Inl e)"
  shows "DecodeLoop_iteration env args io s =
           Return (on_error_if_streaming args e
                     (executor_called calls (step_after_decode io) (world_of s))) e"
proof -
  from assms(1) have "(cancelled args \<and> cancelled_load io) = False" by simp
  then show ?thesis
    unfolding DecodeLoop_iteration_def by (simp only: if_False assms(2) prod.case sum.case)
qed

lemma iteration_cases:
  obtains (cancel) "cancelled args" "cancelled_load io"
  | (failed) calls e where "\<not> (cancelled args \<and> cancelled_load io)"
      "Run env args io (run_one_step s) = (calls, Inl e)"
  | (stepped) calls all_done stepped where "\<not> (cancelled args \<and> cancelled_load io)"
      "Run env args io (run_one_step s) = (calls, Inr (all_done, stepped))"
proof (cases "cancelled args \<and> cancelled_load io")
  case True
  then show ?thesis using cancel by simp
next
  case False
  obtain calls r where r: "Run env args io (run_one_step s) = (calls, r)"
    by (cases "Run env args io (run_one_step s)")
  show ?thesis
  proof (cases r)
    case (Inl e)
    with False r show ?thesis using failed by simp
  next
    case (Inr p)
    obtain all_done st where "p = (all_done, st)" by (cases p)
    with False r Inr show ?thesis using stepped by simp
  qed
qed

subsection \<open>The caller's detector\<close>

lemma iteration_detector:
  "stop_token_detector (world_after (DecodeLoop_iteration env args io s))
     = stop_token_detector (world_of s)"
proof (cases rule: iteration_cases[where args=args and io=io and env=env and s=s])
  case cancel
  then show ?thesis
    by (simp add: iteration_cancelled on_error_if_streaming_def)
next
  case (failed calls e)
  then show ?thesis
    by (simp add: iteration_of_failed_step on_error_if_streaming_def executor_called_def)
next
  case (stepped calls all_done st)
  then show ?thesis
    by (simp add: iteration_of_successful_step Let_def foldl_collect_frame executor_called_def)
qed

lemma while_detector:
  "stop_token_detector (world_after (DecodeLoop_while env args s ios))
     = stop_token_detector (world_of s)"
proof (induction ios arbitrary: s)
  case Nil
  then show ?case by simp
next
  case (Cons io ios)
  show ?case
    using iteration_detector[of env args io s] Cons.IH
    by (cases "DecodeLoop_iteration env args io s") simp_all
qed

lemma finish_detector:
  "stop_token_detector (fst (DecodeLoop_finish env args s)) = stop_token_detector (world_of s)"
  by (simp add: DecodeLoop_finish_def Let_def split: option.splits)

lemma DecodeLoop_detector:
  "stop_token_detector (after (DecodeLoop env args w ios)) = stop_token_detector w"
proof -
  let ?r = "DecodeLoop_while env args (DecodeLoop_start env args w) ios"
  have "stop_token_detector (world_after ?r) = stop_token_detector w"
    by (simp add: while_detector DecodeLoop_start_def)
  then show ?thesis
    by (cases ?r) (simp_all add: DecodeLoop_def finish_detector split: option.splits)
qed

subsection \<open>The observer's events\<close>

lemma iteration_observer_log_state:
  assumes "DecodeLoop_iteration env args io s = Continue s'
             \<or> DecodeLoop_iteration env args io s = Break s'"
  shows "\<exists>nexts. observer_log (world_of s') = observer_log (world_of s) @ nexts
               \<and> list_all is_OnNext nexts \<and> (observer args \<or> nexts = [])"
proof (cases rule: iteration_cases[where args=args and io=io and env=env and s=s])
  case cancel
  with assms show ?thesis
    by (simp add: iteration_cancelled)
next
  case (failed calls e)
  with assms show ?thesis
    by (simp add: iteration_of_failed_step)
next
  case (stepped calls all_done st)
  with assms show ?thesis
    by (auto simp: iteration_of_successful_step Let_def foldl_collect_frame executor_called_def
          split: if_splits)
qed

lemma iteration_observer_log_return:
  assumes "DecodeLoop_iteration env args io s = Return w e"
  shows "observer_log w
           = observer_log (world_of s) @ (if observer args then [OnError e] else [])"
proof (cases rule: iteration_cases[where args=args and io=io and env=env and s=s])
  case cancel
  with assms show ?thesis
    by (auto simp: iteration_cancelled on_error_if_streaming_def)
next
  case (failed calls e')
  with assms show ?thesis
    by (auto simp: iteration_of_failed_step on_error_if_streaming_def executor_called_def)
next
  case (stepped calls all_done st)
  with assms show ?thesis
    by (auto simp: iteration_of_successful_step Let_def split: if_splits)
qed

lemma while_observer_log_state:
  assumes "DecodeLoop_while env args s ios = Continue s'
             \<or> DecodeLoop_while env args s ios = Break s'"
  shows "\<exists>nexts. observer_log (world_of s') = observer_log (world_of s) @ nexts
               \<and> list_all is_OnNext nexts \<and> (observer args \<or> nexts = [])"
  using assms
proof (induction ios arbitrary: s)
  case Nil
  then show ?case by simp
next
  case (Cons io ios)
  show ?case
  proof (cases "DecodeLoop_iteration env args io s")
    case (Continue s1)
    from iteration_observer_log_state[of env args io s s1] Continue
    obtain n1 where n1: "observer_log (world_of s1) = observer_log (world_of s) @ n1"
        "list_all is_OnNext n1" "observer args \<or> n1 = []"
      by auto
    from Cons.prems Continue
    have "DecodeLoop_while env args s1 ios = Continue s'
            \<or> DecodeLoop_while env args s1 ios = Break s'"
      by simp
    from Cons.IH[OF this]
    obtain n2 where n2: "observer_log (world_of s') = observer_log (world_of s1) @ n2"
        "list_all is_OnNext n2" "observer args \<or> n2 = []"
      by auto
    have "observer_log (world_of s') = observer_log (world_of s) @ (n1 @ n2)"
      "list_all is_OnNext (n1 @ n2)" "observer args \<or> n1 @ n2 = []"
      using n1 n2 by auto
    then show ?thesis by blast
  next
    case (Break s1)
    with Cons.prems have "s' = s1" by simp
    with iteration_observer_log_state[of env args io s s1] Break show ?thesis by simp
  next
    case (Return w e)
    with Cons.prems show ?thesis by simp
  qed
qed

lemma while_observer_log_return:
  assumes "DecodeLoop_while env args s ios = Return w e"
  shows "\<exists>nexts. observer_log w
                   = observer_log (world_of s) @ nexts
                       @ (if observer args then [OnError e] else [])
               \<and> list_all is_OnNext nexts \<and> (observer args \<or> nexts = [])"
  using assms
proof (induction ios arbitrary: s)
  case Nil
  then show ?case by simp
next
  case (Cons io ios)
  show ?case
  proof (cases "DecodeLoop_iteration env args io s")
    case (Continue s1)
    from iteration_observer_log_state[of env args io s s1] Continue
    obtain n1 where n1: "observer_log (world_of s1) = observer_log (world_of s) @ n1"
        "list_all is_OnNext n1" "observer args \<or> n1 = []"
      by auto
    from Cons.prems Continue have "DecodeLoop_while env args s1 ios = Return w e"
      by simp
    from Cons.IH[OF this]
    obtain n2 where n2: "observer_log w = observer_log (world_of s1) @ n2
                           @ (if observer args then [OnError e] else [])"
        "list_all is_OnNext n2" "observer args \<or> n2 = []"
      by auto
    have "observer_log w = observer_log (world_of s) @ (n1 @ n2)
                           @ (if observer args then [OnError e] else [])"
      "list_all is_OnNext (n1 @ n2)" "observer args \<or> n1 @ n2 = []"
      using n1 n2 by auto
    then show ?thesis by blast
  next
    case (Break s1)
    with Cons.prems show ?thesis by simp
  next
    case (Return w1 e1)
    with Cons.prems have "w1 = w" "e1 = e" by simp_all
    with iteration_observer_log_return[of env args io s w e] Return
    have "observer_log w = observer_log (world_of s) @ []
                             @ (if observer args then [OnError e] else [])"
      by simp
    then show ?thesis
      by (intro exI[of _ "[]"]) simp
  qed
qed
subsection \<open>The executor's calls\<close>

lemma iteration_executor_log:
  "\<exists>more. executor_log (world_after (DecodeLoop_iteration env args io s))
            = executor_log (world_of s) @ more"
proof (cases rule: iteration_cases[where args=args and io=io and env=env and s=s])
  case cancel
  then show ?thesis
    by (simp add: iteration_cancelled on_error_if_streaming_def)
next
  case (failed calls e)
  then show ?thesis
    by (simp add: iteration_of_failed_step on_error_if_streaming_def executor_called_def)
next
  case (stepped calls all_done st)
  then show ?thesis
    by (simp add: iteration_of_successful_step Let_def foldl_collect_frame executor_called_def)
qed

lemma while_executor_log:
  "\<exists>more. executor_log (world_after (DecodeLoop_while env args s ios))
            = executor_log (world_of s) @ more"
proof (induction ios arbitrary: s)
  case Nil
  then show ?case by simp
next
  case (Cons io ios)
  obtain m1 where m1: "executor_log (world_after (DecodeLoop_iteration env args io s))
                         = executor_log (world_of s) @ m1"
    using iteration_executor_log by blast
  show ?case
  proof (cases "DecodeLoop_iteration env args io s")
    case (Continue s1)
    obtain m2 where "executor_log (world_after (DecodeLoop_while env args s1 ios))
                       = executor_log (world_of s1) @ m2"
      using Cons.IH by blast
    with m1 Continue show ?thesis by simp
  next
    case (Break s1)
    with m1 show ?thesis by simp
  next
    case (Return w e)
    with m1 show ?thesis by simp
  qed
qed

lemma finish_executor_log:
  "\<exists>more. executor_log (fst (DecodeLoop_finish env args s)) = executor_log (world_of s) @ more"
  by (simp add: DecodeLoop_finish_def Let_def split: option.splits)

subsection \<open>The loop's constants\<close>

lemma iteration_max_num_tokens:
  assumes "DecodeLoop_iteration env args io s = Continue s'
             \<or> DecodeLoop_iteration env args io s = Break s'"
  shows "max_num_tokens s' = max_num_tokens s"
proof (cases rule: iteration_cases[where args=args and io=io and env=env and s=s])
  case cancel
  with assms show ?thesis
    by (simp add: iteration_cancelled)
next
  case (failed calls e)
  with assms show ?thesis
    by (simp add: iteration_of_failed_step)
next
  case (stepped calls all_done st)
  with assms show ?thesis
    by (auto simp: iteration_of_successful_step Let_def foldl_collect_frame split: if_splits)
qed

lemma while_max_num_tokens:
  assumes "DecodeLoop_while env args s ios = Continue s'
             \<or> DecodeLoop_while env args s ios = Break s'"
  shows "max_num_tokens s' = max_num_tokens s"
  using assms
proof (induction ios arbitrary: s)
  case Nil
  then show ?case by simp
next
  case (Cons io ios)
  show ?case
  proof (cases "DecodeLoop_iteration env args io s")
    case (Continue s1)
    with Cons.prems have "DecodeLoop_while env args s1 ios = Continue s'
                            \<or> DecodeLoop_while env args s1 ios = Break s'"
      by simp
    from Cons.IH[OF this] iteration_max_num_tokens[of env args io s s1] Continue
    show ?thesis by simp
  next
    case (Break s1)
    with Cons.prems iteration_max_num_tokens[of env args io s s1] show ?thesis by simp
  next
    case (Return w e)
    with Cons.prems show ?thesis by simp
  qed
qed

text \<open>What a call that has not returned, and one that has returned a value, say about
  the loop.\<close>

lemma DecodeLoop_running:
  assumes "returned (DecodeLoop env args w ios) = None"
  obtains s where "turn_start env = None"
    and "DecodeLoop_while env args (DecodeLoop_start env args w) ios = Continue s"
    and "after (DecodeLoop env args w ios) = world_of s"
  using assms
  by (cases "DecodeLoop_while env args (DecodeLoop_start env args w) ios")
     (auto simp: DecodeLoop_def split: option.splits)

lemma DecodeLoop_returned_value:
  assumes "returned (DecodeLoop env args w ios) = Some (Inr r)"
  obtains s where "turn_start env = None"
    and "DecodeLoop_while env args (DecodeLoop_start env args w) ios = Break s"
    and "DecodeLoop_finish env args s = (after (DecodeLoop env args w ios), Inr r)"
  using assms
  by (cases "DecodeLoop_while env args (DecodeLoop_start env args w) ios")
     (auto simp: DecodeLoop_def prod_eq_iff split: option.splits)

section \<open>When the loop is left\<close>

text \<open>The counters of the loop: an iteration that completes its step counts it and
  leaves the benchmark's count and the maximum as they are; so after the iterations
  \<open>ios\<close>, the loop still running, \<open>length ios\<close> more steps are counted.\<close>

lemma iteration_counters:
  assumes "DecodeLoop_iteration env args io s = Continue s'
             \<or> DecodeLoop_iteration env args io s = Break s'"
  shows "num_decode_steps s' = num_decode_steps s + 1
       \<and> benchmark_decode_token_count s' = benchmark_decode_token_count s
       \<and> max_num_tokens s' = max_num_tokens s"
proof (cases rule: iteration_cases[where args=args and io=io and env=env and s=s])
  case cancel
  with assms show ?thesis
    by (simp add: iteration_cancelled)
next
  case (failed calls e)
  with assms show ?thesis
    by (simp add: iteration_of_failed_step)
next
  case (stepped calls all_done st)
  with assms show ?thesis
    by (auto simp: iteration_of_successful_step Let_def foldl_collect_frame split: if_splits)
qed

lemma while_counters:
  assumes "DecodeLoop_while env args s ios = Continue s'"
  shows "num_decode_steps s' = num_decode_steps s + int (length ios)
       \<and> benchmark_decode_token_count s' = benchmark_decode_token_count s
       \<and> max_num_tokens s' = max_num_tokens s"
  using assms
proof (induction ios arbitrary: s)
  case Nil
  then show ?case by simp
next
  case (Cons io ios)
  show ?case
  proof (cases "DecodeLoop_iteration env args io s")
    case (Continue s1)
    with Cons.prems have "DecodeLoop_while env args s1 ios = Continue s'"
      by simp
    from Cons.IH[OF this] iteration_counters[of env args io s s1] Continue
    show ?thesis by simp
  next
    case (Break s1)
    with Cons.prems show ?thesis by simp
  next
    case (Return w e)
    with Cons.prems show ?thesis by simp
  qed
qed

text \<open>
  C1. In any state \<open>s\<close> of the decode loop, take an iteration that is not cancelled and
  whose step succeeds, reporting \<open>all_done\<close>. With \<open>K\<close> the loop's
  \<open>benchmark_decode_token_count\<close>, \<open>num_decode_steps s + 1\<close> the number of steps decoded
  once this one is counted, and \<open>step_after_decode io\<close> the executor's current step
  after it: the loop is left by \<^verbatim>\<open>break\<close> exactly when all candidates are done and
  \<open>K = 0\<close>, or \<open>K > 0\<close> and the number of steps has reached \<open>K\<close>, or the current step
  has reached \<open>max_num_tokens\<close>; otherwise it goes on to the next iteration. In
  particular, with \<open>K > 0\<close>, fewer than \<open>K\<close> steps and room in the cache, the loop goes
  on whatever the detector reports.

  The state after the iteration has the step counted, \<open>K\<close> and \<open>max_num_tokens\<close> as
  before, and the executor at \<open>step_after_decode io\<close>.

  When \<open>s\<close> is the state a call has reached after the iterations \<open>pre\<close>, the number of
  steps counted in \<open>s\<close> is \<open>length pre\<close>, \<open>K\<close> is the benchmark's
  \<^verbatim>\<open>num_decode_tokens()\<close> (0 without a benchmark) and \<open>max_num_tokens\<close> the
  executor's maximum (4096 without settings). So the loop of the call is left after
  iteration \<open>length pre + 1\<close> exactly when the step reports all candidates done and
  \<open>K = 0\<close>, or \<open>K > 0\<close> and \<open>length pre + 1 \<ge> K\<close>, or the executor's current step has
  reached the maximum; otherwise it is still running, and the call, if its turn start
  mark succeeded, has returned exactly in the first case.
\<close>

theorem loop_exit_iff_stop_conditions:
  assumes "\<not> (cancelled args \<and> cancelled_load io)"
      and "Run env args io (run_one_step s) = (calls, Inr (all_done, stepped))"
  shows "((\<exists>s'. DecodeLoop_iteration env args io s = Break s') \<longleftrightarrow>
            (all_done \<and> benchmark_decode_token_count s = 0)
          \<or> (0 < benchmark_decode_token_count s
               \<and> benchmark_decode_token_count s \<le> num_decode_steps s + 1)
          \<or> max_num_tokens s \<le> step_after_decode io)
       \<and> ((\<exists>s'. DecodeLoop_iteration env args io s = Continue s') \<longleftrightarrow>
            \<not> ((all_done \<and> benchmark_decode_token_count s = 0)
               \<or> (0 < benchmark_decode_token_count s
                    \<and> benchmark_decode_token_count s \<le> num_decode_steps s + 1)
               \<or> max_num_tokens s \<le> step_after_decode io))
       \<and> (0 < benchmark_decode_token_count s
              \<and> num_decode_steps s + 1 < benchmark_decode_token_count s
              \<and> step_after_decode io < max_num_tokens s
            \<longrightarrow> (\<exists>s'. DecodeLoop_iteration env args io s = Continue s'))
       \<and> \<not> is_Return (DecodeLoop_iteration env args io s)
       \<and> num_decode_steps (state_after (DecodeLoop_iteration env args io s))
            = num_decode_steps s + 1
       \<and> benchmark_decode_token_count (state_after (DecodeLoop_iteration env args io s))
            = benchmark_decode_token_count s
       \<and> max_num_tokens (state_after (DecodeLoop_iteration env args io s)) = max_num_tokens s
       \<and> executor_step (world_of (state_after (DecodeLoop_iteration env args io s)))
            = step_after_decode io
       \<and> (DecodeLoop_while env args (DecodeLoop_start env args w) pre = Continue s \<longrightarrow>
             num_decode_steps s = int (length pre)
           \<and> benchmark_decode_token_count s
               = (case benchmark_info env of None \<Rightarrow> 0 | Some b \<Rightarrow> num_decode_tokens b)
           \<and> max_num_tokens s = TryGetMaxNumTokens env
           \<and> (is_Break (DecodeLoop_while env args (DecodeLoop_start env args w) (pre @ [io]))
                \<longleftrightarrow>
                  (all_done
                     \<and> (case benchmark_info env of None \<Rightarrow> 0 | Some b \<Rightarrow> num_decode_tokens b)
                         = 0)
                \<or> (0 < (case benchmark_info env of None \<Rightarrow> 0 | Some b \<Rightarrow> num_decode_tokens b)
                     \<and> (case benchmark_info env of None \<Rightarrow> 0 | Some b \<Rightarrow> num_decode_tokens b)
                          \<le> int (length pre) + 1)
                \<or> TryGetMaxNumTokens env \<le> step_after_decode io)
           \<and> (is_Continue (DecodeLoop_while env args (DecodeLoop_start env args w) (pre @ [io]))
                \<longleftrightarrow>
                \<not> ((all_done
                     \<and> (case benchmark_info env of None \<Rightarrow> 0 | Some b \<Rightarrow> num_decode_tokens b)
                         = 0)
                \<or> (0 < (case benchmark_info env of None \<Rightarrow> 0 | Some b \<Rightarrow> num_decode_tokens b)
                     \<and> (case benchmark_info env of None \<Rightarrow> 0 | Some b \<Rightarrow> num_decode_tokens b)
                          \<le> int (length pre) + 1)
                \<or> TryGetMaxNumTokens env \<le> step_after_decode io))
           \<and> (turn_start env = None \<longrightarrow>
                (returned (DecodeLoop env args w (pre @ [io])) \<noteq> None
                 \<longleftrightarrow>
                  (all_done
                     \<and> (case benchmark_info env of None \<Rightarrow> 0 | Some b \<Rightarrow> num_decode_tokens b)
                         = 0)
                \<or> (0 < (case benchmark_info env of None \<Rightarrow> 0 | Some b \<Rightarrow> num_decode_tokens b)
                     \<and> (case benchmark_info env of None \<Rightarrow> 0 | Some b \<Rightarrow> num_decode_tokens b)
                          \<le> int (length pre) + 1)
                \<or> TryGetMaxNumTokens env \<le> step_after_decode io)))"
proof -
  let ?it = "DecodeLoop_iteration env args io s"
  let ?stop = "(all_done \<and> benchmark_decode_token_count s = 0)
          \<or> (0 < benchmark_decode_token_count s
               \<and> benchmark_decode_token_count s \<le> num_decode_steps s + 1)
          \<or> max_num_tokens s \<le> step_after_decode io"
  have calls: "calls = [if sampler args then CallDecodeLogits else CallDecode]"
    using Run_calls[OF assms(2)] .
  have brk: "(\<exists>s'. ?it = Break s') \<longleftrightarrow> ?stop"
    and cnt: "(\<exists>s'. ?it = Continue s') \<longleftrightarrow> \<not> ?stop"
    and nret: "\<not> is_Return ?it"
    and step: "executor_step (world_of (state_after ?it)) = step_after_decode io"
    using calls
    by (auto simp: iteration_of_successful_step[OF assms] Let_def foldl_collect_frame
          ShouldStop_iff executor_called_def)
  from nret have "?it = Continue (state_after ?it) \<or> ?it = Break (state_after ?it)"
    by (cases ?it) simp_all
  from iteration_counters[OF this]
  have counters: "num_decode_steps (state_after ?it) = num_decode_steps s + 1"
      "benchmark_decode_token_count (state_after ?it) = benchmark_decode_token_count s"
      "max_num_tokens (state_after ?it) = max_num_tokens s"
    by simp_all
  have whole: ?thesis
    if pre: "DecodeLoop_while env args (DecodeLoop_start env args w) pre = Continue s"
  proof -
    let ?s0 = "DecodeLoop_start env args w"
    from while_counters[OF pre]
    have s: "num_decode_steps s = int (length pre)"
        "benchmark_decode_token_count s
           = (case benchmark_info env of None \<Rightarrow> 0 | Some b \<Rightarrow> num_decode_tokens b)"
        "max_num_tokens s = TryGetMaxNumTokens env"
      by (simp_all add: DecodeLoop_start_def)
    have run: "DecodeLoop_while env args ?s0 (pre @ [io]) = ?it"
      using nret by (cases ?it) (simp_all add: DecodeLoop_while_append pre)
    have b: "is_Break ?it \<longleftrightarrow> ?stop" and c: "is_Continue ?it \<longleftrightarrow> \<not> ?stop"
      using brk cnt by (cases ?it; simp)+
    have r: "returned (DecodeLoop env args w (pre @ [io])) \<noteq> None \<longleftrightarrow> is_Break ?it"
      if "turn_start env = None"
      using nret that by (cases ?it) (simp_all add: DecodeLoop_def run)
    show ?thesis
      using brk cnt nret counters step s b c r
      by (simp add: run)
  qed
  show ?thesis
  proof (cases "DecodeLoop_while env args (DecodeLoop_start env args w) pre = Continue s")
    case True
    then show ?thesis by (rule whole)
  next
    case False
    with brk cnt nret counters step show ?thesis
      by simp
  qed
qed

text \<open>
  With a benchmark of 2 decode tokens: the first step produces the stop token and
  the loop goes on; the second step is the second counted and the loop is left, the
  call returning then.
\<close>

theorem loop_exit_iff_stop_conditions_witness:
  "\<not> (cancelled (demo_args 1 False False) \<and> cancelled_load (demo_io False [7] [] 5))
   \<and> (\<exists>s calls stepped.
         DecodeLoop_while (demo_benchmark_env 2 None None) (demo_args 1 False False)
           (DecodeLoop_start (demo_benchmark_env 2 None None) (demo_args 1 False False)
              (demo_world 1))
           [demo_io False [2] [] 4] = Continue s
       \<and> Run (demo_benchmark_env 2 None None) (demo_args 1 False False)
           (demo_io False [7] [] 5) (run_one_step s) = (calls, Inr (True, stepped))
       \<and> num_decode_steps s = 1
       \<and> benchmark_decode_token_count s = 2
       \<and> num_decode_steps (state_after
            (DecodeLoop_iteration (demo_benchmark_env 2 None None) (demo_args 1 False False)
               (demo_io False [7] [] 5) s)) = 2)
   \<and> is_Break
        (DecodeLoop_while (demo_benchmark_env 2 None None) (demo_args 1 False False)
           (DecodeLoop_start (demo_benchmark_env 2 None None) (demo_args 1 False False)
              (demo_world 1))
           ([demo_io False [2] [] 4] @ [demo_io False [7] [] 5]))
   \<and> returned (DecodeLoop (demo_benchmark_env 2 None None) (demo_args 1 False False)
        (demo_world 1) ([demo_io False [2] [] 4] @ [demo_io False [7] [] 5])) \<noteq> None"
proof -
  let ?env = "demo_benchmark_env 2 None None"
  let ?args = "demo_args 1 False False"
  let ?pre = "[demo_io False [2] [] 4]"
  let ?io = "demo_io False [7] [] 5"
  let ?s0 = "DecodeLoop_start ?env ?args (demo_world 1)"
  have nc: "\<not> (cancelled ?args \<and> cancelled_load ?io)"
    by (simp add: demo_defs)
  obtain s where pre: "DecodeLoop_while ?env ?args ?s0 ?pre = Continue s"
    by (simp add: demo_benchmark_env_def demo_defs loop_defs)
  then have det: "m_stop_token_detector (run_one_step s) = [2]"
      "m_bpe_partial_token_ids (run_one_step s) = [[]]"
    by (auto simp: demo_benchmark_env_def demo_defs loop_defs)
  obtain calls stepped
    where run: "Run ?env ?args ?io (run_one_step s) = (calls, Inr (True, stepped))"
    by (simp add: det demo_benchmark_env_def demo_defs Run_def DecodeAndSample_def
          bench_mark_def Let_def)
  have env: "benchmark_info ?env
               = Some \<lparr>num_decode_tokens = 2, TimeDecodeTurnStart = None,
                       TimeDecodeTurnEnd = (\<lambda>n. None)\<rparr>"
      "turn_start ?env = None" "TryGetMaxNumTokens ?env = 10" "step_after_decode ?io = 5"
    by (simp_all add: demo_benchmark_env_def demo_defs turn_start_def TryGetMaxNumTokens_def)
  from loop_exit_iff_stop_conditions[OF nc run, of "demo_world 1" ?pre] pre
  have "num_decode_steps s = 1" "benchmark_decode_token_count s = 2"
    "num_decode_steps (state_after (DecodeLoop_iteration ?env ?args ?io s)) = 2"
    "is_Break (DecodeLoop_while ?env ?args ?s0 (?pre @ [?io]))"
    "returned (DecodeLoop ?env ?args (demo_world 1) (?pre @ [?io])) \<noteq> None"
    by (simp_all add: env del: One_nat_def append.simps)
  with nc pre run show ?thesis
    by blast
qed

section \<open>Cancellation\<close>

text \<open>
  C7. Let the loop have run the iterations \<open>pre\<close> without returning, and let the cancel
  flag be given and read as set at the top of the next iteration. Then the call returns
  \<^verbatim>\<open>Cancelled\<close> in that iteration, whatever answers would follow; the executor
  receives no further call; in streaming mode the observer receives
  \<^verbatim>\<open>OnError(Cancelled)\<close> and nothing else after what it had, in batch mode nothing.
  All it had received since the call began are \<^verbatim>\<open>OnNext\<close> events, so the call's
  events hold exactly one \<^verbatim>\<open>OnError\<close>, the last, and no \<^verbatim>\<open>OnDone\<close>.
\<close>

theorem cancel_ends_loop_at_iteration:
  assumes "returned (DecodeLoop env args w pre) = None"
      and "cancelled args" and "cancelled_load io"
  shows "returned (DecodeLoop env args w (pre @ io # rest))
           = Some (Inl (CancelledError ''Process cancelled.''))
       \<and> executor_log (after (DecodeLoop env args w (pre @ io # rest)))
           = executor_log (after (DecodeLoop env args w pre))
       \<and> observer_log (after (DecodeLoop env args w (pre @ io # rest)))
           = observer_log (after (DecodeLoop env args w pre))
               @ (if observer args then [OnError (CancelledError ''Process cancelled.'')] else [])
       \<and> (\<exists>nexts. observer_log (after (DecodeLoop env args w pre)) = observer_log w @ nexts
                  \<and> list_all is_OnNext nexts)"
proof -
  from assms(1) obtain s where start: "turn_start env = None"
    and pre: "DecodeLoop_while env args (DecodeLoop_start env args w) pre = Continue s"
    and after_pre: "after (DecodeLoop env args w pre) = world_of s"
    by (rule DecodeLoop_running)
  let ?e = "CancelledError ''Process cancelled.''"
  have "DecodeLoop_while env args (DecodeLoop_start env args w) (pre @ io # rest)
          = Return (on_error_if_streaming args ?e (world_of s)) ?e"
    by (simp add: DecodeLoop_while_append pre iteration_cancelled[OF assms(2,3)])
  then have full: "DecodeLoop env args w (pre @ io # rest)
          = \<lparr>after = on_error_if_streaming args ?e (world_of s), returned = Some (Inl ?e)\<rparr>"
    by (simp add: DecodeLoop_def start)
  from while_observer_log_state[of env args "DecodeLoop_start env args w" pre s] pre
  obtain nexts where "observer_log (world_of s) = observer_log w @ nexts"
      "list_all is_OnNext nexts"
    by (auto simp: DecodeLoop_start_def)
  then show ?thesis
    by (auto simp: full after_pre on_error_if_streaming_def)
qed

text \<open>A streaming call that decodes \<open>Hi\<close> and is cancelled before its second
  iteration: the observer has \<open>Hi\<close>, then the error.\<close>

theorem cancel_ends_loop_at_iteration_witness:
  "returned (DecodeLoop demo_env (demo_args 1 False True) (demo_world 1)
               [demo_io False [7] [] 4]) = None
   \<and> cancelled (demo_args 1 False True)
   \<and> cancelled_load (demo_io True [8] [] 5)
   \<and> DecodeLoop demo_env (demo_args 1 False True) (demo_world 1)
        ([demo_io False [7] [] 4] @ demo_io True [8] [] 5 # [demo_io False [9] [] 6])
      = \<lparr>after =
           \<lparr>stop_token_detector = [0],
            observer_log =
              [OnNext \<lparr>response_texts = [''Hi''], response_scores = [MinusInfinity]\<rparr>,
               OnError (CancelledError ''Process cancelled.'')],
            executor_log = [CallGetExecutorSettings, CallDecode, CallGetCurrentStep],
            executor_step = 4\<rparr>,
         returned = Some (Inl (CancelledError ''Process cancelled.''))\<rparr>"
proof -
  let ?args = "demo_args 1 False True"
  let ?pre = "[demo_io False [7] [] 4]"
  let ?io = "demo_io True [8] [] 5"
  let ?rest = "[demo_io False [9] [] 6]"
  have pre: "DecodeLoop demo_env ?args (demo_world 1) ?pre
      = \<lparr>after =
           \<lparr>stop_token_detector = [0],
            observer_log =
              [OnNext \<lparr>response_texts = [''Hi''], response_scores = [MinusInfinity]\<rparr>],
            executor_log = [CallGetExecutorSettings, CallDecode, CallGetCurrentStep],
            executor_step = 4\<rparr>,
         returned = None\<rparr>"
    by (simp add: demo_defs loop_defs)
  have h1: "returned (DecodeLoop demo_env ?args (demo_world 1) ?pre) = None"
    unfolding pre by simp
  have h2: "cancelled ?args" and h3: "cancelled_load ?io" and ob: "observer ?args"
    by (simp_all add: demo_defs)
  let ?full = "DecodeLoop demo_env ?args (demo_world 1) (?pre @ ?io # ?rest)"
  from cancel_ends_loop_at_iteration[OF h1 h2 h3, of ?rest, unfolded pre]
  have "returned ?full = Some (Inl (CancelledError ''Process cancelled.''))"
    and "executor_log (after ?full) = [CallGetExecutorSettings, CallDecode, CallGetCurrentStep]"
    and "observer_log (after ?full)
           = [OnNext \<lparr>response_texts = [''Hi''], response_scores = [MinusInfinity]\<rparr>,
              OnError (CancelledError ''Process cancelled.'')]"
    by (simp_all add: ob del: One_nat_def)
  moreover have "stop_token_detector (after ?full) = [0]"
    by (simp add: DecodeLoop_detector demo_world_def)
  moreover have "executor_step (after ?full) = 4"
    by (simp add: demo_defs loop_defs)
  ultimately have "?full
      = \<lparr>after =
           \<lparr>stop_token_detector = [0],
            observer_log =
              [OnNext \<lparr>response_texts = [''Hi''], response_scores = [MinusInfinity]\<rparr>,
               OnError (CancelledError ''Process cancelled.'')],
            executor_log = [CallGetExecutorSettings, CallDecode, CallGetCurrentStep],
            executor_step = 4\<rparr>,
         returned = Some (Inl (CancelledError ''Process cancelled.''))\<rparr>"
    by (cases ?full, cases "after ?full") simp
  with h1 h2 h3 show ?thesis by blast
qed

section \<open>The end of a streaming call\<close>

text \<open>
  C8. When a streaming call returns a value, not an error, the value is
  \<^verbatim>\<open>Responses(0)\<close>, with no text and no score, and the events the observer received
  during the call are \<^verbatim>\<open>OnNext\<close> events followed by exactly one closing event:
  \<^verbatim>\<open>OnError(Internal("Maximum kv-cache size reached."))\<close> if the executor's current
  step has reached the maximum number of tokens, \<^verbatim>\<open>OnDone\<close> otherwise.
\<close>

theorem streaming_return_has_one_closing_event:
  assumes "observer args"
      and "returned (DecodeLoop env args w ios) = Some (Inr r)"
  shows "r = Responses_of_size (f_unset (floats env)) 0
       \<and> response_texts r = [] \<and> response_scores r = []
       \<and> (\<exists>nexts. observer_log (after (DecodeLoop env args w ios))
                    = observer_log w @ nexts
                        @ [if TryGetMaxNumTokens env
                                \<le> executor_step (after (DecodeLoop env args w ios))
                           then OnError (InternalError ''Maximum kv-cache size reached.'')
                           else OnDone]
                  \<and> list_all is_OnNext nexts)"
proof -
  from assms(2) obtain s where start: "turn_start env = None"
    and loop: "DecodeLoop_while env args (DecodeLoop_start env args w) ios = Break s"
    and fin: "DecodeLoop_finish env args s = (after (DecodeLoop env args w ios), Inr r)"
    by (rule DecodeLoop_returned_value)
  from while_observer_log_state[of env args "DecodeLoop_start env args w" ios s] loop
  obtain nexts where nexts: "observer_log (world_of s) = observer_log w @ nexts"
      "list_all is_OnNext nexts"
    by (auto simp: DecodeLoop_start_def)
  from while_max_num_tokens[of env args "DecodeLoop_start env args w" ios s] loop
  have mx: "max_num_tokens s = TryGetMaxNumTokens env"
    by (simp add: DecodeLoop_start_def)
  from fin assms(1)
  have r: "r = Responses_of_size (f_unset (floats env)) 0"
    and w': "after (DecodeLoop env args w ios)
             = (world_of s)
                 \<lparr>executor_log := executor_log (world_of s) @ [CallGetCurrentStep],
                  observer_log :=
                    observer_log (world_of s) @
                      [if executor_step (world_of s) \<ge> max_num_tokens s
                       then OnError (InternalError ''Maximum kv-cache size reached.'')
                       else OnDone]\<rparr>"
    by (auto simp: DecodeLoop_finish_def Let_def split: option.splits)
  have "observer_log (after (DecodeLoop env args w ios))
          = observer_log w @ nexts
              @ [if TryGetMaxNumTokens env \<le> executor_step (after (DecodeLoop env args w ios))
                 then OnError (InternalError ''Maximum kv-cache size reached.'')
                 else OnDone]"
    by (simp add: w' nexts mx)
  with nexts(2) r show ?thesis
    by (auto simp: Responses_of_size_def)
qed

text \<open>A streaming call that decodes \<open>Hi\<close> and then the stop token ends with
  \<^verbatim>\<open>OnDone\<close>.\<close>

theorem streaming_return_has_one_closing_event_witness:
  "observer (demo_args 1 False True)
   \<and> returned (DecodeLoop demo_env (demo_args 1 False True) (demo_world 1)
                 [demo_io False [7] [] 4, demo_io False [2] [] 5])
       = Some (Inr \<lparr>response_texts = [], response_scores = []\<rparr>)
   \<and> observer_log (after (DecodeLoop demo_env (demo_args 1 False True) (demo_world 1)
                 [demo_io False [7] [] 4, demo_io False [2] [] 5]))
       = [OnNext \<lparr>response_texts = [''Hi''], response_scores = [MinusInfinity]\<rparr>, OnDone]"
proof -
  let ?args = "demo_args 1 False True"
  let ?run = "DecodeLoop demo_env ?args (demo_world 1)
                 [demo_io False [7] [] 4, demo_io False [2] [] 5]"
  have ob: "observer ?args"
    by (simp add: demo_defs)
  have ret: "returned ?run = Some (Inr \<lparr>response_texts = [], response_scores = []\<rparr>)"
    by (simp add: demo_defs loop_defs)
  have step: "executor_step (after ?run) = 5" and mx: "TryGetMaxNumTokens demo_env = 10"
    and w: "observer_log (demo_world 1) = []"
    by (simp_all add: demo_defs loop_defs)
  from streaming_return_has_one_closing_event[OF ob ret]
  obtain nexts where "observer_log (after ?run) = nexts @ [OnDone]" "list_all is_OnNext nexts"
    unfolding step mx w by auto
  moreover have "observer_log (after ?run)
       = [OnNext \<lparr>response_texts = [''Hi''], response_scores = [MinusInfinity]\<rparr>, OnDone]"
    by (simp add: demo_defs loop_defs)
  ultimately show ?thesis
    using ob ret by blast
qed

section \<open>The caller's detector is left as it was\<close>

text \<open>
  C9. The stop token detector the caller passes to \<^verbatim>\<open>Decode\<close>,
  \<^verbatim>\<open>DecodeStreaming\<close>, \<^verbatim>\<open>DecodeCustomSampling\<close> or
  \<^verbatim>\<open>DecodeCustomSamplingStreaming\<close> is the same after the call, however far the
  call got and however it ended: the loop advances the copy that
  \<^verbatim>\<open>DecodeOneStep\<close> holds as a member.
\<close>

theorem entry_points_leave_caller_detector:
  "stop_token_detector (after (Decode env cancelled_given w ios)) = stop_token_detector w
   \<and> stop_token_detector (after (DecodeStreaming env observer_given cancelled_given w ios))
       = stop_token_detector w
   \<and> stop_token_detector (after (DecodeCustomSampling env n cancelled_given w ios))
       = stop_token_detector w
   \<and> stop_token_detector
        (after (DecodeCustomSamplingStreaming env n observer_given cancelled_given w ios))
       = stop_token_detector w"
  by (simp add: Decode_def DecodeStreaming_def DecodeCustomSampling_def
        DecodeCustomSamplingStreaming_def Let_def DecodeLoop_detector)

text \<open>After a step on token 8, a prefix of the stop sequence \<open>[8, 9]\<close>, the member's
  state for the candidate is 1 and the caller's detector still 0.\<close>

theorem entry_points_leave_caller_detector_witness:
  "stop_token_detector (after (Decode demo_env True (demo_world 1) [demo_io False [8] [] 4]))
     = [0]
   \<and> m_stop_token_detector (run_one_step (state_after
        (DecodeLoop_while demo_env (demo_args 1 False False)
           (DecodeLoop_start demo_env (demo_args 1 False False) (demo_world 1))
           [demo_io False [8] [] 4])))
     = [1]"
proof -
  have "stop_token_detector (demo_world 1) = [0]"
    by (simp add: demo_world_def)
  with entry_points_leave_caller_detector[of demo_env True "demo_world 1"
         "[demo_io False [8] [] 4]"]
  have "stop_token_detector (after (Decode demo_env True (demo_world 1)
          [demo_io False [8] [] 4])) = [0]"
    by (simp del: One_nat_def)
  moreover have "m_stop_token_detector (run_one_step (state_after
        (DecodeLoop_while demo_env (demo_args 1 False False)
           (DecodeLoop_start demo_env (demo_args 1 False False) (demo_world 1))
           [demo_io False [8] [] 4])))
     = [1]"
    by (simp add: demo_defs loop_defs)
  ultimately show ?thesis by blast
qed

section \<open>The first iteration\<close>

text \<open>
  C10. If the turn start mark of the benchmark succeeds, the first iteration is not
  cancelled and its step succeeds, then the executor's calls during the call begin
  with the settings query, then the decode call of the first step
  (\<^verbatim>\<open>DecodeLogits\<close> with a sampler, \<^verbatim>\<open>Decode\<close> without), and only then the
  first query of the current step, the one that \<^verbatim>\<open>ShouldStop\<close> is evaluated on.
  Nothing is assumed of the executor's current step or of the detector at entry.
\<close>

theorem first_step_before_stop_check:
  assumes "turn_start env = None"
      and "\<not> (cancelled args \<and> cancelled_load io)"
      and "Run env args io (run_one_step (DecodeLoop_start env args w))
             = (calls, Inr (all_done, stepped))"
  shows "\<exists>more. executor_log (after (DecodeLoop env args w (io # ios)))
                  = executor_log w
                      @ [CallGetExecutorSettings,
                         if sampler args then CallDecodeLogits else CallDecode,
                         CallGetCurrentStep]
                      @ more"
proof -
  let ?s0 = "DecodeLoop_start env args w"
  let ?first = "[CallGetExecutorSettings,
                 if sampler args then CallDecodeLogits else CallDecode, CallGetCurrentStep]"
  have calls: "calls = [if sampler args then CallDecodeLogits else CallDecode]"
    using Run_calls[OF assms(3)] .
  have it: "executor_log (world_after (DecodeLoop_iteration env args io ?s0))
              = executor_log w @ ?first"
    by (subst iteration_of_successful_step[OF assms(2,3)])
       (simp add: Let_def foldl_collect_frame executor_called_def calls DecodeLoop_start_def)
  have "\<exists>more. executor_log (world_after (DecodeLoop_while env args ?s0 (io # ios)))
                 = executor_log w @ ?first @ more"
  proof (cases "DecodeLoop_iteration env args io ?s0")
    case (Continue s1)
    from while_executor_log[of env args s1 ios] obtain m
      where "executor_log (world_after (DecodeLoop_while env args s1 ios))
               = executor_log (world_of s1) @ m"
      by blast
    with it Continue show ?thesis by simp
  next
    case (Break s1)
    with it show ?thesis by simp
  next
    case (Return w' e)
    with it show ?thesis by simp
  qed
  then obtain m1 where m1: "executor_log (world_after (DecodeLoop_while env args ?s0 (io # ios)))
                 = executor_log w @ ?first @ m1"
    by blast
  show ?thesis
  proof (cases "DecodeLoop_while env args ?s0 (io # ios)")
    case (Continue s1)
    with m1 show ?thesis
      by (simp add: DecodeLoop_def assms(1) del: DecodeLoop_while.simps)
  next
    case (Break s1)
    from finish_executor_log[of env args s1] obtain m2
      where "executor_log (fst (DecodeLoop_finish env args s1)) = executor_log (world_of s1) @ m2"
      by blast
    with m1 Break show ?thesis
      by (simp add: DecodeLoop_def assms(1) del: DecodeLoop_while.simps)
  next
    case (Return w' e)
    with m1 show ?thesis
      by (simp add: DecodeLoop_def assms(1) del: DecodeLoop_while.simps)
  qed
qed

text \<open>A call entered with the cache already full (step 10 of 10) and a detector that
  already reports its candidate stopped still decodes once before it stops.\<close>

theorem first_step_before_stop_check_witness:
  "turn_start demo_env = None
   \<and> \<not> (cancelled (demo_args 1 False False) \<and> cancelled_load (demo_io False [7] [] 11))
   \<and> DecodeLoop demo_env (demo_args 1 False False)
        ((demo_world 1)\<lparr>stop_token_detector := [2], executor_step := 10\<rparr>)
        (demo_io False [7] [] 11 # [])
      = \<lparr>after =
           \<lparr>stop_token_detector = [2], observer_log = [],
            executor_log = [CallGetExecutorSettings, CallDecode, CallGetCurrentStep],
            executor_step = 11\<rparr>,
         returned = Some (Inr \<lparr>response_texts = [[]], response_scores = [MinusInfinity]\<rparr>)\<rparr>"
proof -
  let ?args = "demo_args 1 False False"
  let ?io = "demo_io False [7] [] 11"
  let ?w = "(demo_world 1)\<lparr>stop_token_detector := [2], executor_step := 10\<rparr>"
  have h1: "turn_start demo_env = None"
    by (simp add: demo_defs turn_start_def)
  have h2: "\<not> (cancelled ?args \<and> cancelled_load ?io)"
    by (simp add: demo_defs)
  obtain calls all_done stepped
    where h3: "Run demo_env ?args ?io (run_one_step (DecodeLoop_start demo_env ?args ?w))
                 = (calls, Inr (all_done, stepped))"
    by (simp add: demo_defs loop_defs)
  from first_step_before_stop_check[OF h1 h2 h3, of "[]"]
  obtain more where "executor_log (after (DecodeLoop demo_env ?args ?w (?io # [])))
      = executor_log ?w @ [CallGetExecutorSettings, CallDecode, CallGetCurrentStep] @ more"
    by (auto simp: demo_args_def)
  moreover have "DecodeLoop demo_env ?args ?w (?io # [])
      = \<lparr>after =
           \<lparr>stop_token_detector = [2], observer_log = [],
            executor_log = [CallGetExecutorSettings, CallDecode, CallGetCurrentStep],
            executor_step = 11\<rparr>,
         returned = Some (Inr \<lparr>response_texts = [[]], response_scores = [MinusInfinity]\<rparr>)\<rparr>"
    by (simp add: demo_defs loop_defs)
  ultimately show ?thesis
    using h1 h2 by blast
qed

section \<open>Errors of the benchmark's turn marks\<close>

text \<open>
  Inside the loop, a cancellation and a failed step reach the observer before the
  function returns them: the event is the last the observer has when the function
  returns.
\<close>

lemma loop_error_reaches_observer_first:
  assumes "observer args"
      and "DecodeLoop_while env args s ios = Return w e"
  shows "observer_log w \<noteq> [] \<and> last (observer_log w) = OnError e"
  using while_observer_log_return[OF assms(2)] assms(1) by auto

text \<open>
  C3 does not hold of the two turn marks. In a streaming call with a benchmark whose
  \<^verbatim>\<open>TimeDecodeTurnStart\<close> fails, the function returns that error and the observer
  has received nothing; likewise when the loop has ended on the stop token and
  \<^verbatim>\<open>TimeDecodeTurnEnd\<close> fails: the observer receives neither \<^verbatim>\<open>OnError\<close> nor
  \<^verbatim>\<open>OnDone\<close>.
\<close>

theorem turn_mark_errors_bypass_observer:
  "DecodeStreaming
     (demo_benchmark_env 0 (Some (InternalError ''Decode turn already started.'')) None)
     True True (demo_world 1) [demo_io False [7] [] 4]
     = \<lparr>after = demo_world 1,
        returned = Some (Some (InternalError ''Decode turn already started.''))\<rparr>
   \<and> DecodeStreaming
       (demo_benchmark_env 0 None (Some (InternalError ''Decode turn not started.'')))
       True True (demo_world 1) [demo_io False [2] [] 4]
     = \<lparr>after =
          \<lparr>stop_token_detector = [0], observer_log = [],
           executor_log = [CallGetExecutorSettings, CallDecode, CallGetCurrentStep],
           executor_step = 4\<rparr>,
        returned = Some (Some (InternalError ''Decode turn not started.''))\<rparr>"
  by (simp add: DecodeStreaming_def demo_benchmark_env_def demo_defs loop_defs)

section \<open>The queue of deferred fragments\<close>

text \<open>The shifting loop releases the oldest fragments, in order, and keeps the rest.\<close>

lemma shift_pending_take_drop:
  "shift_pending bound res q
     = (res @ concat (take (length q - bound) q), drop (length q - bound) q)"
proof (induction q arbitrary: res)
  case Nil
  then show ?case by simp
next
  case (Cons front q)
  show ?case
  proof (cases "length (front # q) > bound")
    case True
    then have "length (front # q) - bound = Suc (length q - bound)"
      by simp
    with True Cons.IH[of "res @ front"] show ?thesis
      by simp
  next
    case False
    then show ?thesis by simp
  qed
qed

lemma shift_pending_length:
  "length (snd (shift_pending bound res q)) \<le> bound"
  by (simp add: shift_pending_take_drop)

text \<open>The body for candidate \<open>j\<close> leaves the entries of every other candidate, and
  the detector, alone.\<close>

lemma Run_candidate_lengths:
  "length (m_pending_stop_tokens (Run_candidate ops det dec toks st j))
     = length (m_pending_stop_tokens st)"
  "length (m_result_text (Run_candidate ops det dec toks st j)) = length (m_result_text st)"
  "m_stop_token_detector (Run_candidate ops det dec toks st j) = m_stop_token_detector st"
  by (simp_all add: Run_candidate_def Let_def)

lemma Run_candidate_other:
  assumes "i \<noteq> j"
  shows "m_pending_stop_tokens (Run_candidate ops det dec toks st j) ! i
           = m_pending_stop_tokens st ! i"
    and "m_result_text (Run_candidate ops det dec toks st j) ! i = m_result_text st ! i"
  using assms by (simp_all add: Run_candidate_def Let_def)

lemma foldl_Run_candidate_lengths:
  "length (m_pending_stop_tokens (foldl (Run_candidate ops det dec toks) st js))
     = length (m_pending_stop_tokens st)"
  "length (m_result_text (foldl (Run_candidate ops det dec toks) st js))
     = length (m_result_text st)"
  "m_stop_token_detector (foldl (Run_candidate ops det dec toks) st js)
     = m_stop_token_detector st"
  by (induction js arbitrary: st; simp add: Run_candidate_lengths)+

lemma foldl_Run_candidate_other:
  assumes "i \<notin> set js"
  shows "m_pending_stop_tokens (foldl (Run_candidate ops det dec toks) st js) ! i
           = m_pending_stop_tokens st ! i"
    and "m_result_text (foldl (Run_candidate ops det dec toks) st js) ! i
           = m_result_text st ! i"
  using assms by (induction js arbitrary: st; simp add: Run_candidate_other)+

text \<open>What the body writes for candidate \<open>i\<close>, from the candidate's own queue.\<close>

lemma Run_candidate_own:
  assumes "i < length (m_pending_stop_tokens st)" "i < length (m_result_text st)"
  shows "(m_pending_stop_tokens (Run_candidate ops det dec toks st i) ! i,
          m_result_text (Run_candidate ops det dec toks st i) ! i)
     = (let q = m_pending_stop_tokens st ! i;
            len = MaxPartialStopTokenLength ops det i;
            shifted = shift_pending (size_t_of_int len) []
                        (if len > 0 then q @ [decoded_value (dec ! i)] else q)
        in if IsIncompleteBpeSequence (dec ! i) \<or> GetStopTokensFound ops det ! i then (q, [])
           else (snd shifted,
                 if len = 0 then fst shifted @ decoded_value (dec ! i) else fst shifted))"
  using assms by (simp add: Run_candidate_def Let_def)

lemma foldl_Run_candidate_own:
  assumes "i < n" "i < length (m_pending_stop_tokens st)" "i < length (m_result_text st)"
  shows "(m_pending_stop_tokens (foldl (Run_candidate ops det dec toks) st [0 ..< n]) ! i,
          m_result_text (foldl (Run_candidate ops det dec toks) st [0 ..< n]) ! i)
     = (m_pending_stop_tokens (Run_candidate ops det dec toks st i) ! i,
        m_result_text (Run_candidate ops det dec toks st i) ! i)"
proof -
  let ?f = "Run_candidate ops det dec toks"
  have "[0 ..< n] = [0 ..< i] @ [i ..< n]"
    using assms(1) upt_add_eq_append[of 0 i "n - i"] by simp
  also have "[i ..< n] = i # [Suc i ..< n]"
    using assms(1) by (rule upt_conv_Cons)
  finally have split: "[0 ..< n] = [0 ..< i] @ i # [Suc i ..< n]" .
  let ?before = "foldl ?f st [0 ..< i]"
  have b: "m_pending_stop_tokens ?before ! i = m_pending_stop_tokens st ! i"
       "m_result_text ?before ! i = m_result_text st ! i"
    by (simp_all add: foldl_Run_candidate_other)
  have l: "i < length (m_pending_stop_tokens ?before)" "i < length (m_result_text ?before)"
    using assms by (simp_all add: foldl_Run_candidate_lengths)
  have "(m_pending_stop_tokens (foldl ?f st [0 ..< n]) ! i,
         m_result_text (foldl ?f st [0 ..< n]) ! i)
      = (m_pending_stop_tokens (?f ?before i) ! i, m_result_text (?f ?before i) ! i)"
    by (simp add: split foldl_Run_candidate_other)
  also have "\<dots> = (m_pending_stop_tokens (?f st i) ! i, m_result_text (?f st i) ! i)"
    unfolding Run_candidate_own[OF l] Run_candidate_own[OF assms(2,3)] b ..
  finally show ?thesis .
qed

text \<open>A step that succeeds, taken apart.\<close>

lemma Run_success:
  assumes "Run env args io st = (calls, Inr (all_done, st'))"
  obtains next_tokens scores new_ids token_ids det
  where "DecodeAndSample env args io (m_scores_span st) = (calls, Inr (next_tokens, scores))"
    and "TensorBufferToTokenIds (tokenizer env) next_tokens = Inr new_ids"
    and "MergeTokenIds (tokenizer env) (m_bpe_partial_token_ids st) new_ids = Inr token_ids"
    and "ProcessTokens (detector env) (m_stop_token_detector st) next_tokens = Inr det"
    and "AllDone (detector env) det = Inr all_done"
    and "st' = (foldl (Run_candidate (detector env) det
                  (TokenIdsToTexts (tokenizer env) (num_output_candidates args) token_ids)
                  token_ids)
                (st\<lparr>m_stop_token_detector := det\<rparr>) [0 ..< num_output_candidates args])
               \<lparr>m_scores_span := (if sampler args then scores
                   else m_scores_span (foldl (Run_candidate (detector env) det
                     (TokenIdsToTexts (tokenizer env) (num_output_candidates args) token_ids)
                     token_ids)
                   (st\<lparr>m_stop_token_detector := det\<rparr>) [0 ..< num_output_candidates args]))\<rparr>"
  using assms unfolding Run_def Let_def
  by (auto split: prod.splits sum.splits option.splits if_splits)

text \<open>
  C4, as the code has it. Take a step that succeeds, \<open>token_ids\<close> being the merged ids
  it decodes, a candidate \<open>i\<close>, its queue \<open>q\<close> before the step, and the length
  \<open>len\<close> that the detector reports for \<open>i\<close> after the step's tokens, a non-negative
  \<^verbatim>\<open>int\<close>. If the decoded text of \<open>i\<close> is complete, \<open>fragment\<close>, and \<open>i\<close> is not
  stopped, then after the step the queue holds at most \<open>len\<close> fragments: for
  \<open>len > 0\<close> the fragment is pushed and all but the \<open>len\<close> newest entries are moved,
  oldest first, to the result text; for \<open>len = 0\<close> the whole queue is moved to the
  result text and the fragment follows it. If the decoded text is incomplete or \<open>i\<close>
  is stopped, the queue is as before and the result text is empty, whatever \<open>len\<close> is.
\<close>

theorem pending_queue_after_step:
  assumes "Run env args io st = (calls, Inr (all_done, st'))"
      and "DecodeAndSample env args io (m_scores_span st) = (calls, Inr (next_tokens, scores))"
      and "TensorBufferToTokenIds (tokenizer env) next_tokens = Inr new_ids"
      and "MergeTokenIds (tokenizer env) (m_bpe_partial_token_ids st) new_ids = Inr token_ids"
      and "i < num_output_candidates args"
      and "i < length (m_pending_stop_tokens st)" and "i < length (m_result_text st)"
      and "len = MaxPartialStopTokenLength (detector env) (m_stop_token_detector st') i"
      and "0 \<le> len" and "len < 2 ^ 31"
      and "q = m_pending_stop_tokens st ! i"
      and "decoded = TokenIdsToTexts (tokenizer env) (num_output_candidates args) token_ids ! i"
      and "stopped = GetStopTokensFound (detector env) (m_stop_token_detector st') ! i"
  shows "(decoded = Decoded fragment \<and> \<not> stopped \<longrightarrow>
            length (m_pending_stop_tokens st' ! i) \<le> nat len
          \<and> (0 < len \<longrightarrow>
                m_result_text st' ! i
                  = concat (take (length q + 1 - nat len) (q @ [fragment]))
              \<and> m_pending_stop_tokens st' ! i
                  = drop (length q + 1 - nat len) (q @ [fragment]))
          \<and> (len = 0 \<longrightarrow>
                m_result_text st' ! i = concat q @ fragment
              \<and> m_pending_stop_tokens st' ! i = []))
       \<and> (decoded = IncompleteBpe \<or> stopped \<longrightarrow>
            m_pending_stop_tokens st' ! i = q \<and> m_result_text st' ! i = [])"
proof -
  let ?n = "num_output_candidates args"
  from assms(1) obtain next_tokens' scores' new_ids' token_ids' det
    where das: "DecodeAndSample env args io (m_scores_span st)
                  = (calls, Inr (next_tokens', scores'))"
      and ids: "TensorBufferToTokenIds (tokenizer env) next_tokens' = Inr new_ids'"
      and mrg: "MergeTokenIds (tokenizer env) (m_bpe_partial_token_ids st) new_ids'
                  = Inr token_ids'"
      and st': "st' = (foldl (Run_candidate (detector env) det
                  (TokenIdsToTexts (tokenizer env) ?n token_ids') token_ids')
                (st\<lparr>m_stop_token_detector := det\<rparr>) [0 ..< ?n])
               \<lparr>m_scores_span := (if sampler args then scores'
                   else m_scores_span (foldl (Run_candidate (detector env) det
                     (TokenIdsToTexts (tokenizer env) ?n token_ids') token_ids')
                   (st\<lparr>m_stop_token_detector := det\<rparr>) [0 ..< ?n]))\<rparr>"
    by (rule Run_success)
  from das assms(2) have "next_tokens' = next_tokens" by simp
  with ids assms(3) have "new_ids' = new_ids" by simp
  with mrg assms(4) have tok: "token_ids' = token_ids" by simp
  let ?dec = "TokenIdsToTexts (tokenizer env) ?n token_ids"
  let ?st0 = "st\<lparr>m_stop_token_detector := det\<rparr>"
  let ?loop = "foldl (Run_candidate (detector env) det ?dec token_ids) ?st0 [0 ..< ?n]"
  have det: "m_stop_token_detector st' = det"
    by (simp add: st' foldl_Run_candidate_lengths)
  have own: "(m_pending_stop_tokens st' ! i, m_result_text st' ! i)
      = (m_pending_stop_tokens (Run_candidate (detector env) det ?dec token_ids ?st0 i) ! i,
         m_result_text (Run_candidate (detector env) det ?dec token_ids ?st0 i) ! i)"
    using foldl_Run_candidate_own[of i ?n ?st0 "detector env" det ?dec token_ids] assms(5-7)
    by (simp add: st' tok)
  have bound: "size_t_of_int len = nat len"
    using assms(9,10) by (simp add: size_t_of_int_def)
  have l: "i < length (m_pending_stop_tokens ?st0)" "i < length (m_result_text ?st0)"
    using assms(6,7) by simp_all
  note eq = own[unfolded Run_candidate_own[OF l]]
  show ?thesis
    using eq assms(8,9,11-13) bound
    by (auto simp: det Let_def shift_pending_take_drop split: if_splits)
qed

text \<open>With one fragment queued and the detector still at length 1 after a second
  token 8, the older fragment is released and the newer one kept.\<close>

theorem pending_queue_after_step_witness:
  "Run demo_env (demo_args 1 False False) (demo_io False [8] [] 5)
     \<lparr>m_stop_token_detector = [1], m_scores_span = [], m_bpe_partial_token_ids = [[]],
      m_pending_stop_tokens = [['' there'']], m_result_text = [[]]\<rparr>
     = ([CallDecode],
        Inr (False,
          \<lparr>m_stop_token_detector = [1], m_scores_span = [], m_bpe_partial_token_ids = [[]],
           m_pending_stop_tokens = [['' there'']], m_result_text = ['' there'']\<rparr>))
   \<and> MaxPartialStopTokenLength (detector demo_env) [1] 0 = 1
   \<and> TokenIdsToTexts (tokenizer demo_env) 1 [[8]] ! 0 = Decoded '' there''
   \<and> \<not> GetStopTokensFound (detector demo_env) [1] ! 0
   \<and> length ([['' there'']] ! 0) \<le> nat 1
   \<and> ['' there''] ! 0 = concat (take (length ['' there''] + 1 - nat 1)
                                  (['' there''] @ ['' there'']))
   \<and> [['' there'']] ! 0 = drop (length ['' there''] + 1 - nat 1)
                              (['' there''] @ ['' there''])"
proof -
  let ?args = "demo_args 1 False False"
  let ?io = "demo_io False [8] [] 5"
  let ?st = "\<lparr>m_stop_token_detector = [1::nat], m_scores_span = ([]::demo_float list),
              m_bpe_partial_token_ids = [[]],
              m_pending_stop_tokens = [['' there'']], m_result_text = [[]]\<rparr>"
  let ?st' = "\<lparr>m_stop_token_detector = [1::nat], m_scores_span = ([]::demo_float list),
               m_bpe_partial_token_ids = [[]],
               m_pending_stop_tokens = [['' there'']], m_result_text = ['' there'']\<rparr>"
  have run: "Run demo_env ?args ?io ?st = ([CallDecode], Inr (False, ?st'))"
    by (simp add: demo_defs loop_defs)
  have das: "DecodeAndSample demo_env ?args ?io (m_scores_span ?st)
               = ([CallDecode], Inr ([8], []))"
    by (simp add: demo_defs loop_defs)
  have ids: "TensorBufferToTokenIds (tokenizer demo_env) [8] = Inr [[8]]"
    by (simp add: demo_defs)
  have mrg: "MergeTokenIds (tokenizer demo_env) (m_bpe_partial_token_ids ?st) [[8]] = Inr [[8]]"
    by (simp add: demo_defs)
  have i: "0 < num_output_candidates ?args" "0 < length (m_pending_stop_tokens ?st)"
      "0 < length (m_result_text ?st)"
    by (simp_all add: demo_defs)
  have len: "1 = MaxPartialStopTokenLength (detector demo_env) (m_stop_token_detector ?st') 0"
    by (simp add: demo_defs)
  have dec: "Decoded '' there''
               = TokenIdsToTexts (tokenizer demo_env) (num_output_candidates ?args) [[8]] ! 0"
    by (simp add: demo_defs)
  have stp: "False = GetStopTokensFound (detector demo_env) (m_stop_token_detector ?st') ! 0"
    by (simp add: demo_defs)
  have q: "['' there''] = m_pending_stop_tokens ?st ! 0"
    by simp
  from pending_queue_after_step[OF run das ids mrg i len _ _ q dec stp, of "'' there''"]
  have "length (m_pending_stop_tokens ?st' ! 0) \<le> nat 1
      \<and> m_result_text ?st' ! 0
          = concat (take (length ['' there''] + 1 - nat 1) (['' there''] @ ['' there'']))
      \<and> m_pending_stop_tokens ?st' ! 0
          = drop (length ['' there''] + 1 - nat 1) (['' there''] @ ['' there''])"
    by simp
  moreover have "MaxPartialStopTokenLength (detector demo_env) [1] 0 = 1"
      "TokenIdsToTexts (tokenizer demo_env) 1 [[8]] ! 0 = Decoded '' there''"
      "\<not> GetStopTokensFound (detector demo_env) [1] ! 0"
    by (simp_all add: demo_defs)
  ultimately show ?thesis
    using run by simp
qed

text \<open>
  The bound does not hold after every step. Token 8 begins the stop sequence
  \<open>[8, 9]\<close>: the detector reports length 1 and the fragment is queued. The next token,
  100, decodes to an incomplete sequence: the detector is back to length 0, and the
  queue, which only a complete decode touches, still holds the fragment.
\<close>

theorem pending_queue_exceeds_partial_length_counterexample:
  "Run demo_env (demo_args 1 False False) (demo_io False [8] [] 4) (DecodeOneStep_init 1 [0])
     = ([CallDecode],
        Inr (False,
          \<lparr>m_stop_token_detector = [1], m_scores_span = [], m_bpe_partial_token_ids = [[]],
           m_pending_stop_tokens = [['' there'']], m_result_text = [[]]\<rparr>))
   \<and> Run demo_env (demo_args 1 False False) (demo_io False [100] [] 5)
       \<lparr>m_stop_token_detector = [1], m_scores_span = [], m_bpe_partial_token_ids = [[]],
        m_pending_stop_tokens = [['' there'']], m_result_text = [[]]\<rparr>
     = ([CallDecode],
        Inr (False,
          \<lparr>m_stop_token_detector = [0], m_scores_span = [], m_bpe_partial_token_ids = [[100]],
           m_pending_stop_tokens = [['' there'']], m_result_text = [[]]\<rparr>))
   \<and> \<not> int (length (m_pending_stop_tokens
          \<lparr>m_stop_token_detector = [0::nat], m_scores_span = ([]::demo_float list),
           m_bpe_partial_token_ids = [[100]],
           m_pending_stop_tokens = [['' there'']], m_result_text = [[]]\<rparr> ! 0))
        \<le> MaxPartialStopTokenLength (detector demo_env)
            (m_stop_token_detector
               \<lparr>m_stop_token_detector = [0::nat], m_scores_span = ([]::demo_float list),
                m_bpe_partial_token_ids = [[100]],
                m_pending_stop_tokens = [['' there'']], m_result_text = [[]]\<rparr>) 0"
  by (simp add: demo_defs loop_defs)

section \<open>Scores of a batch call with a sampler\<close>

text \<open>In batch mode with a sampler, the body for candidate \<open>j\<close> adds the step's score
  of \<open>j\<close> to its sum and counts the step, if \<open>j\<close> has result text.\<close>

lemma collect_candidate_batch:
  assumes "\<not> observer args" "sampler args"
      and "i < length (accumulated_scores s)" "i < length (num_decoded_tokens s)"
  shows "accumulated_scores (collect_candidate env args s j) ! i
           = (if i = j \<and> m_result_text (run_one_step s) ! i \<noteq> []
              then f_add (floats env) (accumulated_scores s ! i)
                     (m_scores_span (run_one_step s) ! i)
              else accumulated_scores s ! i)"
    and "num_decoded_tokens (collect_candidate env args s j) ! i
           = (if i = j \<and> m_result_text (run_one_step s) ! i \<noteq> []
              then num_decoded_tokens s ! i + 1
              else num_decoded_tokens s ! i)"
  using assms by (auto simp: collect_candidate_def Let_def nth_list_update)

lemma collect_candidate_batch_frame:
  "length (accumulated_scores (collect_candidate env args s j)) = length (accumulated_scores s)"
  "length (num_decoded_tokens (collect_candidate env args s j)) = length (num_decoded_tokens s)"
  "response_scores (final_responses (collect_candidate env args s j))
     = response_scores (final_responses s)"
  by (simp_all add: collect_candidate_def Let_def)

lemma foldl_collect_batch_frame:
  "length (accumulated_scores (foldl (collect_candidate env args) s js))
     = length (accumulated_scores s)"
  "length (num_decoded_tokens (foldl (collect_candidate env args) s js))
     = length (num_decoded_tokens s)"
  "response_scores (final_responses (foldl (collect_candidate env args) s js))
     = response_scores (final_responses s)"
  by (induction js arbitrary: s; simp add: collect_candidate_batch_frame)+

lemma foldl_collect_batch:
  assumes "\<not> observer args" "sampler args"
      and "i < length (accumulated_scores s)" "i < length (num_decoded_tokens s)"
  shows "accumulated_scores (foldl (collect_candidate env args) s [0 ..< n]) ! i
           = (if i < n \<and> m_result_text (run_one_step s) ! i \<noteq> []
              then f_add (floats env) (accumulated_scores s ! i)
                     (m_scores_span (run_one_step s) ! i)
              else accumulated_scores s ! i)
       \<and> num_decoded_tokens (foldl (collect_candidate env args) s [0 ..< n]) ! i
           = (if i < n \<and> m_result_text (run_one_step s) ! i \<noteq> []
              then num_decoded_tokens s ! i + 1
              else num_decoded_tokens s ! i)"
proof (induction n)
  case 0
  then show ?case by simp
next
  case (Suc n)
  let ?t = "foldl (collect_candidate env args) s [0 ..< n]"
  have l: "i < length (accumulated_scores ?t)" "i < length (num_decoded_tokens ?t)"
    using assms(3,4) by (simp_all add: foldl_collect_batch_frame)
  show ?case
    using Suc collect_candidate_batch[OF assms(1,2) l, of env n]
    by (auto simp: foldl_collect_frame)
qed

text \<open>One iteration of the loop, and then all of them, on the sum and the count of
  candidate \<open>i\<close>.\<close>

lemma iteration_batch_scores:
  assumes "\<not> observer args" "sampler args" "i < num_output_candidates args"
      and "i < length (accumulated_scores s)" "i < length (num_decoded_tokens s)"
      and "DecodeLoop_iteration env args io s = Continue s'
             \<or> DecodeLoop_iteration env args io s = Break s'"
  shows "accumulated_scores s' ! i
           = (if m_result_text (run_one_step s') ! i \<noteq> []
              then f_add (floats env) (accumulated_scores s ! i)
                     (m_scores_span (run_one_step s') ! i)
              else accumulated_scores s ! i)
       \<and> num_decoded_tokens s' ! i
           = (if m_result_text (run_one_step s') ! i \<noteq> []
              then num_decoded_tokens s ! i + 1
              else num_decoded_tokens s ! i)
       \<and> length (accumulated_scores s') = length (accumulated_scores s)
       \<and> length (num_decoded_tokens s') = length (num_decoded_tokens s)
       \<and> response_scores (final_responses s') = response_scores (final_responses s)"
proof (cases rule: iteration_cases[where args=args and io=io and env=env and s=s])
  case cancel
  with assms(6) show ?thesis
    by (simp add: iteration_cancelled)
next
  case (failed calls e)
  with assms(6) show ?thesis
    by (simp add: iteration_of_failed_step)
next
  case (stepped calls all_done st)
  let ?s1 = "s\<lparr>world_of := executor_called calls (step_after_decode io) (world_of s),
               run_one_step := st,
               num_decode_steps := num_decode_steps s + 1,
               step_responses :=
                 Responses_of_size (f_unset (floats env)) (num_output_candidates args),
               any_updates := False\<rparr>"
  let ?s2 = "foldl (collect_candidate env args) ?s1 [0 ..< num_output_candidates args]"
  have s': "accumulated_scores s' = accumulated_scores ?s2"
      "num_decoded_tokens s' = num_decoded_tokens ?s2"
      "final_responses s' = final_responses ?s2"
      "run_one_step s' = st"
    using assms(1,6)
    by (auto simp: iteration_of_successful_step[OF stepped] Let_def foldl_collect_frame
          split: if_splits)
  have l: "i < length (accumulated_scores ?s1)" "i < length (num_decoded_tokens ?s1)"
    using assms(4,5) by simp_all
  from foldl_collect_batch[OF assms(1,2) l, of env "num_output_candidates args"] assms(3)
  show ?thesis
    by (simp add: s' foldl_collect_batch_frame)
qed

lemma while_batch_scores:
  assumes "\<not> observer args" "sampler args" "i < num_output_candidates args"
      and "i < length (accumulated_scores s)" "i < length (num_decoded_tokens s)"
      and "DecodeLoop_while env args s ios = Break s'"
  shows "accumulated_scores s' ! i
           = foldl (f_add (floats env)) (accumulated_scores s ! i)
               (map (\<lambda>st. m_scores_span st ! i)
                  (filter (\<lambda>st. m_result_text st ! i \<noteq> []) (completed_steps env args s ios)))
       \<and> num_decoded_tokens s' ! i
           = num_decoded_tokens s ! i
               + int (length (filter (\<lambda>st. m_result_text st ! i \<noteq> [])
                                (completed_steps env args s ios)))
       \<and> length (accumulated_scores s') = length (accumulated_scores s)
       \<and> length (num_decoded_tokens s') = length (num_decoded_tokens s)
       \<and> response_scores (final_responses s') = response_scores (final_responses s)"
  using assms(4-6)
proof (induction ios arbitrary: s)
  case Nil
  then show ?case by simp
next
  case (Cons io ios)
  show ?case
  proof (cases "DecodeLoop_iteration env args io s")
    case (Continue s1)
    from iteration_batch_scores[OF assms(1-3) Cons.prems(1,2), of env io s1] Continue
    have one: "accumulated_scores s1 ! i
           = (if m_result_text (run_one_step s1) ! i \<noteq> []
              then f_add (floats env) (accumulated_scores s ! i)
                     (m_scores_span (run_one_step s1) ! i)
              else accumulated_scores s ! i)"
       "num_decoded_tokens s1 ! i
           = (if m_result_text (run_one_step s1) ! i \<noteq> []
              then num_decoded_tokens s ! i + 1
              else num_decoded_tokens s ! i)"
       "length (accumulated_scores s1) = length (accumulated_scores s)"
       "length (num_decoded_tokens s1) = length (num_decoded_tokens s)"
       "response_scores (final_responses s1) = response_scores (final_responses s)"
      by simp_all
    from Cons.prems(3) Continue have rest: "DecodeLoop_while env args s1 ios = Break s'"
      by simp
    have l: "i < length (accumulated_scores s1)" "i < length (num_decoded_tokens s1)"
      using one(3,4) Cons.prems(1,2) by simp_all
    from Cons.IH[OF l rest] one Continue show ?thesis
      by simp
  next
    case (Break s1)
    with Cons.prems(3) have "s1 = s'" by simp
    with iteration_batch_scores[OF assms(1-3) Cons.prems(1,2), of env io s'] Break
    show ?thesis by simp
  next
    case (Return w e)
    with Cons.prems(3) show ?thesis by simp
  qed
qed

text \<open>The score loop after the decode loop writes the quotient, or minus infinity,
  for every candidate.\<close>

lemma finalize_scores_nth:
  assumes "i < length final_scores"
  shows "foldl (finalize_score fl acc num) final_scores [0 ..< n] ! i
           = (if i < n
              then (if num ! i > 0 then f_div_int fl (acc ! i) (num ! i) else f_neg_infinity fl)
              else final_scores ! i)
       \<and> length (foldl (finalize_score fl acc num) final_scores [0 ..< n]) = length final_scores"
  using assms
  by (induction n) (auto simp: finalize_score_def nth_list_update less_Suc_eq)

text \<open>
  C6. Let a batch call with a sampler return its responses. For every candidate \<open>i\<close>,
  take the steps the loop completed in which \<open>i\<close> had non-empty result text. If there
  are none, the returned score of \<open>i\<close> is minus infinity. Otherwise it is the sum of
  the scores the sampler gave \<open>i\<close> in those steps, added up in step order from
  \<^verbatim>\<open>0.0f\<close>, divided by their number. The sum and the quotient are the
  \<^verbatim>\<open>float\<close> operations of the code.
\<close>

theorem batch_score_is_mean_of_contributing_steps:
  assumes "\<not> observer args" and "sampler args"
      and "returned (DecodeLoop env args w ios) = Some (Inr r)"
      and "i < num_output_candidates args"
      and "contributing = filter (\<lambda>st. m_result_text st ! i \<noteq> [])
                            (completed_steps env args (DecodeLoop_start env args w) ios)"
  shows "response_scores r ! i
           = (if contributing = [] then f_neg_infinity (floats env)
              else f_div_int (floats env)
                     (foldl (f_add (floats env)) (f_zero (floats env))
                        (map (\<lambda>st. m_scores_span st ! i) contributing))
                     (int (length contributing)))"
proof -
  let ?n = "num_output_candidates args"
  let ?s0 = "DecodeLoop_start env args w"
  from assms(3) obtain s where loop: "DecodeLoop_while env args ?s0 ios = Break s"
    and fin: "DecodeLoop_finish env args s = (after (DecodeLoop env args w ios), Inr r)"
    by (rule DecodeLoop_returned_value)
  have l0: "i < length (accumulated_scores ?s0)" "i < length (num_decoded_tokens ?s0)"
    using assms(4) by (simp_all add: DecodeLoop_start_def)
  from while_batch_scores[OF assms(1,2,4) l0 loop]
  have acc: "accumulated_scores s ! i
               = foldl (f_add (floats env)) (f_zero (floats env))
                   (map (\<lambda>st. m_scores_span st ! i) contributing)"
    and num: "num_decoded_tokens s ! i = int (length contributing)"
    and len: "length (response_scores (final_responses s)) = ?n"
    using assms(4) by (simp_all add: assms(5) DecodeLoop_start_def Responses_of_size_def)
  from fin assms(1,2)
  have r: "response_scores r
             = foldl (finalize_score (floats env) (accumulated_scores s) (num_decoded_tokens s))
                 (response_scores (final_responses s)) [0 ..< ?n]"
    by (auto simp: DecodeLoop_finish_def split: option.splits)
  have "i < length (response_scores (final_responses s))"
    using len assms(4) by simp
  from finalize_scores_nth[OF this, of "floats env" "accumulated_scores s"
         "num_decoded_tokens s" ?n] assms(4)
  show ?thesis
    by (simp add: r acc num)
qed

text \<open>Two candidates, three steps, the loop ending at the cache limit. Candidate 1
  has text in the first two steps only, with scores 2/10 and 4/10: its score is 3/10.\<close>

theorem batch_score_is_mean_of_contributing_steps_witness:
  "\<not> observer (demo_args 2 True False) \<and> sampler (demo_args 2 True False)
   \<and> returned (DecodeLoop demo_env (demo_args 2 True False) (demo_world 2)
        [demo_io False [7, 7] [Score (1 / 10), Score (2 / 10)] 4,
         demo_io False [7, 7] [Score (3 / 10), Score (4 / 10)] 5,
         demo_io False [7, 100] [Score (5 / 10), Score (6 / 10)] 10])
      = Some (Inr \<lparr>response_texts = [''HiHiHi'', ''HiHi''],
                   response_scores = [Score (3 / 10), Score (3 / 10)]\<rparr>)
   \<and> map (\<lambda>st. m_scores_span st ! 1)
        (filter (\<lambda>st. m_result_text st ! 1 \<noteq> [])
           (completed_steps demo_env (demo_args 2 True False)
              (DecodeLoop_start demo_env (demo_args 2 True False) (demo_world 2))
              [demo_io False [7, 7] [Score (1 / 10), Score (2 / 10)] 4,
               demo_io False [7, 7] [Score (3 / 10), Score (4 / 10)] 5,
               demo_io False [7, 100] [Score (5 / 10), Score (6 / 10)] 10]))
      = [Score (2 / 10), Score (4 / 10)]
   \<and> [Score (3 / 10), Score (3 / 10)] ! 1
      = f_div_int (floats demo_env)
          (foldl (f_add (floats demo_env)) (f_zero (floats demo_env))
             [Score (2 / 10), Score (4 / 10)])
          2"
proof -
  let ?args = "demo_args 2 True False"
  let ?ios = "[demo_io False [7, 7] [Score (1 / 10), Score (2 / 10)] 4,
               demo_io False [7, 7] [Score (3 / 10), Score (4 / 10)] 5,
               demo_io False [7, 100] [Score (5 / 10), Score (6 / 10)] 10]"
  let ?r = "\<lparr>response_texts = [''HiHiHi'', ''HiHi''],
             response_scores = [Score (3 / 10), Score (3 / 10)]\<rparr>"
  let ?c = "filter (\<lambda>st. m_result_text st ! 1 \<noteq> [])
              (completed_steps demo_env ?args (DecodeLoop_start demo_env ?args (demo_world 2))
                 ?ios)"
  have h: "\<not> observer ?args" "sampler ?args" "1 < num_output_candidates ?args"
    by (simp_all add: demo_defs)
  have ret: "returned (DecodeLoop demo_env ?args (demo_world 2) ?ios) = Some (Inr ?r)"
    by code_simp
  have c: "map (\<lambda>st. m_scores_span st ! 1) ?c = [Score (2 / 10), Score (4 / 10)]"
    by code_simp
  then have n: "length ?c = 2" "?c \<noteq> []"
    by (auto dest: arg_cong[where f=length])
  from batch_score_is_mean_of_contributing_steps[OF h(1,2) ret h(3) refl]
  have mean: "response_scores ?r ! 1
      = f_div_int (floats demo_env)
          (foldl (f_add (floats demo_env)) (f_zero (floats demo_env))
             [Score (2 / 10), Score (4 / 10)])
          2"
    unfolding c n(1) using n(2) by (simp only: if_False of_nat_numeral)
  have "[Score (3 / 10), Score (3 / 10)] ! 1 = response_scores ?r ! 1"
    by simp
  with mean h(1,2) ret c show ?thesis
    by (simp only: simp_thms)
qed

section \<open>Prefill's results\<close>

text \<open>
  C5, as the code has it. Let the inputs hold a token-id tensor whose type can be
  read, \<open>num_tokens\<close> being its last dimension and \<open>max_tokens\<close> the executor's
  maximum (4096 without settings).
  If \<open>num_tokens \<ge> max_tokens\<close>, \<^verbatim>\<open>Prefill\<close> fails with \<^verbatim>\<open>InvalidArgument\<close> and a
  message that names both numbers.
  If \<open>num_tokens < max_tokens\<close> and the buffer, once locked, is empty, it fails with
  \<^verbatim>\<open>Internal\<close>, "Input token ids are empty.", not with \<^verbatim>\<open>InvalidArgument\<close>.
  If \<open>num_tokens < max_tokens\<close>, the buffer is not empty and the executor's prefill and
  the benchmark's mark succeed, it returns the last element of the buffer.
  So, with collaborators that succeed, it fails with \<^verbatim>\<open>InvalidArgument\<close> exactly
  when \<open>num_tokens \<ge> max_tokens\<close>.
\<close>

theorem Prefill_results:
  assumes "GetTextDataPtr pio = Inr (Some token_ids)"
      and "TensorType pio = None"
      and "num_tokens = last_dimension token_ids"
      and "max_tokens = TryGetMaxNumTokens env"
      and "collaborators_succeed \<longleftrightarrow>
             ReferTensorBufferAsSpan_ids pio = None \<and> executor_Prefill pio = None
             \<and> (benchmark_info env = None
                 \<or> TimePrefillTurnEnd pio (length (elements token_ids)) = None)"
  shows "(num_tokens \<ge> max_tokens \<longrightarrow>
            Prefill env pio wait_for_completion
              = Inl (InvalidArgumentError
                  (''Input token ids are too long. Exceeding the maximum number of tokens ''
                   @ ''allowed: '' @ StrCat_int num_tokens @ '' >= '' @ StrCat_int max_tokens)))
       \<and> (num_tokens < max_tokens \<and> ReferTensorBufferAsSpan_ids pio = None
            \<and> elements token_ids = [] \<longrightarrow>
            Prefill env pio wait_for_completion
              = Inl (InternalError ''Input token ids are empty.''))
       \<and> (num_tokens < max_tokens \<and> elements token_ids \<noteq> [] \<and> collaborators_succeed \<longrightarrow>
            Prefill env pio wait_for_completion = Inr (last (elements token_ids)))
       \<and> (collaborators_succeed \<longrightarrow>
            (error_code (Prefill env pio wait_for_completion) = Some kInvalidArgument
               \<longleftrightarrow> num_tokens \<ge> max_tokens))"
  using assms
  by (auto simp: Prefill_def Let_def split: option.splits)

text \<open>With a maximum of 10 tokens: a prompt of 12 tokens is refused with both numbers
  in the message, and the prompt \<open>[5, 6, 7]\<close> gives 7.\<close>

theorem Prefill_results_witness:
  "GetTextDataPtr (demo_prefill_io (demo_prompt [5, 6, 7])) = Inr (Some (demo_prompt [5, 6, 7]))
   \<and> TensorType (demo_prefill_io (demo_prompt [5, 6, 7])) = None
   \<and> last_dimension (demo_prompt [5, 6, 7]) < TryGetMaxNumTokens demo_env
   \<and> Prefill demo_env (demo_prefill_io (demo_prompt [5, 6, 7])) True = Inr 7
   \<and> last_dimension (demo_prompt [1, 2, 3, 4, 5, 6, 7, 8, 9, 10, 11, 12])
        \<ge> TryGetMaxNumTokens demo_env
   \<and> Prefill demo_env (demo_prefill_io (demo_prompt [1, 2, 3, 4, 5, 6, 7, 8, 9, 10, 11, 12]))
        True
      = Inl (InvalidArgumentError
          (''Input token ids are too long. Exceeding the maximum number of tokens ''
           @ ''allowed: 12 >= 10''))"
proof -
  let ?short = "demo_prompt [5, 6, 7]"
  let ?long = "demo_prompt [1, 2, 3, 4, 5, 6, 7, 8, 9, 10, 11, 12]"
  have mx: "TryGetMaxNumTokens demo_env = 10"
    by (simp add: demo_defs TryGetMaxNumTokens_def)
  have io: "GetTextDataPtr (demo_prefill_io t) = Inr (Some t)"
      "TensorType (demo_prefill_io t) = None"
      "ReferTensorBufferAsSpan_ids (demo_prefill_io t) = None"
      "executor_Prefill (demo_prefill_io t) = None" for t
    by (simp_all add: demo_prefill_io_def)
  have nb: "benchmark_info demo_env = None"
    by (simp add: demo_env_def)
  have short: "last_dimension ?short = 3" "elements ?short = [5, 6, 7]"
    and long: "last_dimension ?long = 12"
    by (simp_all add: demo_prompt_def)
  have nums: "StrCat_int 12 = ''12''" "StrCat_int 10 = ''10''"
    by (simp_all add: StrCat_int_def string_of_nat.simps digit_char_def)
  from Prefill_results[where pio="demo_prefill_io ?short" and token_ids="?short"
         and env=demo_env and wait_for_completion=True, OF io(1,2) refl refl refl]
  have "Prefill demo_env (demo_prefill_io ?short) True = Inr 7"
    by (simp add: mx io nb short)
  moreover
  from Prefill_results[where pio="demo_prefill_io ?long" and token_ids="?long"
         and env=demo_env and wait_for_completion=True, OF io(1,2) refl refl refl]
  have "Prefill demo_env (demo_prefill_io ?long) True
      = Inl (InvalidArgumentError
          (''Input token ids are too long. Exceeding the maximum number of tokens ''
           @ ''allowed: 12 >= 10''))"
    by (simp add: mx long nums)
  ultimately show ?thesis
    by (simp add: io mx short long)
qed

text \<open>
  The claim as the spec words it fails at the empty prompt: with a maximum of 10
  tokens, an empty buffer is refused with \<^verbatim>\<open>Internal\<close>, not
  \<^verbatim>\<open>InvalidArgument\<close>.
\<close>

theorem Prefill_empty_prompt_counterexample:
  "elements (demo_prompt []) = []
   \<and> Prefill demo_env (demo_prefill_io (demo_prompt [])) True
       = Inl (InternalError ''Input token ids are empty.'')
   \<and> error_code (Prefill demo_env (demo_prefill_io (demo_prompt [])) True)
       \<noteq> Some kInvalidArgument"
  by (simp add: Prefill_def demo_prefill_io_def demo_prompt_def demo_defs
        TryGetMaxNumTokens_def)



end
